theory Spec2Isabelle
  imports Main
begin

section \<open>JavaScript values used by the catalog code\<close>

text \<open>
  Strings are lists of 8-bit characters, read as Latin-1 code units. A request or record
  field that is absent is the empty string: every use in the source (\<^verbatim>\<open>!name\<close>,
  \<^verbatim>\<open>x || default\<close>, \<^verbatim>\<open>if (file.category)\<close>) treats \<^verbatim>\<open>undefined\<close> and
  \<^verbatim>\<open>''\<close> alike. A collection that is absent is the empty list, which is what
  \<^verbatim>\<open>data.preset_tags || []\<close> and \<^verbatim>\<open>if (!data.preset_tags) data.preset_tags = []\<close>
  make of it. Time stamps are kept as the clock reading in milliseconds (the argument of
  \<^verbatim>\<open>new Date().toISOString()\<close>); a handler takes one clock reading.
\<close>

definition digit_char :: "nat \<Rightarrow> char" where
  "digit_char n = char_of (48 + n)"

text \<open>Number-to-string conversion of a non-negative integer below \<open>10^21\<close>
  (\<^verbatim>\<open>'tag_' + Date.now()\<close>): its decimal digits, no leading zero.\<close>

fun string_of_nat :: "nat \<Rightarrow> string" where
  "string_of_nat n =
     (if n < 10 then [digit_char n]
      else string_of_nat (n div 10) @ [digit_char (n mod 10)])"

declare string_of_nat.simps [simp del]

section \<open>The data document of the Express server and of the static DataManager\<close>

text \<open>
  \<^verbatim>\<open>data.json\<close> as \<^verbatim>\<open>loadData\<close> returns it (src/unnamed/part_000, lines 50-60) and as
  \<^verbatim>\<open>DataManager.data\<close> holds it (src/cursor-sonic/static-pages/js/data-manager.js).
\<close>

record file_info =
  f_id :: string
  f_originalName :: string
  f_encryptedName :: string
  f_fileSize :: nat
  f_uploadTime :: nat
  f_accessCount :: nat
  f_title :: string
  f_description :: string
  f_category :: string
  f_background :: string
  f_prompt :: string
  f_model :: string
  f_tags :: "string list"
  f_status :: string
  f_lastAccess :: "nat option"

text \<open>A preset tag, model or category. Only tags carry a colour; \<open>p_updateTime\<close> is set
  by the PUT handlers only.\<close>

record preset =
  p_id :: string
  p_name :: string
  p_color :: "string option"
  p_description :: string
  p_createTime :: nat
  p_usageCount :: nat
  p_updateTime :: "nat option"

record settings =
  totalFiles :: nat
  totalTags :: nat
  totalModels :: nat
  totalCategories :: nat

record data =
  files :: "file_info list"
  preset_tags :: "preset list"
  preset_models :: "preset list"
  categories :: "preset list"
  settings :: settings
  lastUpdate :: "nat option"

text \<open>The default document of \<^verbatim>\<open>loadData\<close> when the file is missing or unreadable.\<close>

definition default_data :: data where
  "default_data =
     \<lparr>files = [], preset_tags = [], preset_models = [], categories = [],
      settings = \<lparr>totalFiles = 0, totalTags = 0, totalModels = 0, totalCategories = 0\<rparr>,
      lastUpdate = None\<rparr>"

datatype error =
    NameEmpty          \<comment> \<open>400: the name is missing or empty\<close>
  | WrongPassword      \<comment> \<open>403: the delete password is not \<^verbatim>\<open>wind\<close>\<close>
  | NoFile             \<comment> \<open>400: the upload carries no file\<close>
  | NotFound           \<comment> \<open>404, or \<^verbatim>\<open>Error('... does not exist')\<close>\<close>
  | InUse nat          \<comment> \<open>400: the entity is used by that many files\<close>
  | SaveFailed         \<comment> \<open>500, or the exception of \<^verbatim>\<open>localStorage.setItem\<close>\<close>

subsection \<open>updateStats\<close>

text \<open>
  src/unnamed/part_000, lines 74-91; \<^verbatim>\<open>DataManager.updateStats\<close> (data-manager.js, lines
  102-127) is the same computation on \<^verbatim>\<open>this.data\<close>. The \<^verbatim>\<open>Set\<close> of categories is
  filled from every file, deleted or not, and holds the truthy (non-empty) values.
\<close>

definition category_set :: "file_info list \<Rightarrow> string list" where
  "category_set fs = remdups (filter (\<lambda>c. c \<noteq> []) (map f_category fs))"

definition updateStats :: "data \<Rightarrow> nat \<Rightarrow> data" where
  "updateStats d now =
     d\<lparr>settings := (settings d)
          \<lparr>totalFiles := length (filter (\<lambda>f. f_status f \<noteq> ''deleted'') (files d)),
           totalTags := length (preset_tags d),
           totalModels := length (preset_models d),
           totalCategories := length (category_set (files d))\<rparr>,
       lastUpdate := Some now\<rparr>"

subsection \<open>Creating presets\<close>

text \<open>The request body of the three POST handlers; \<open>b_color\<close> is read for tags only.\<close>

record preset_body =
  b_name :: string
  b_color :: string
  b_description :: string

text \<open>
  A handler loads the document, works on it and writes it back with \<^verbatim>\<open>saveData\<close>,
  which returns false when the write fails (\<open>save_ok\<close>). The result is the response
  and the document on disk afterwards.
\<close>

text \<open>\<^verbatim>\<open>app.post('/api/tags')\<close>, src/unnamed/part_000, lines 288-315.\<close>

definition post_tags :: "data \<Rightarrow> preset_body \<Rightarrow> nat \<Rightarrow> bool \<Rightarrow> (error + preset) \<times> data" where
  "post_tags d body now save_ok =
     (if b_name body = [] then (Inl NameEmpty, d)
      else
        let newTag = \<lparr>p_id = ''tag_'' @ string_of_nat now,
                      p_name = b_name body,
                      p_color = Some (if b_color body = [] then ''#3498db'' else b_color body),
                      p_description = b_description body,
                      p_createTime = now,
                      p_usageCount = 0,
                      p_updateTime = None\<rparr>;
            d' = updateStats (d\<lparr>preset_tags := preset_tags d @ [newTag]\<rparr>) now
        in if save_ok then (Inr newTag, d') else (Inl SaveFailed, d))"

text \<open>\<^verbatim>\<open>app.post('/api/models')\<close>, src/unnamed/part_000, lines 324-350.\<close>

definition post_models :: "data \<Rightarrow> preset_body \<Rightarrow> nat \<Rightarrow> bool \<Rightarrow> (error + preset) \<times> data" where
  "post_models d body now save_ok =
     (if b_name body = [] then (Inl NameEmpty, d)
      else
        let newModel = \<lparr>p_id = ''model_'' @ string_of_nat now,
                        p_name = b_name body,
                        p_color = None,
                        p_description = b_description body,
                        p_createTime = now,
                        p_usageCount = 0,
                        p_updateTime = None\<rparr>;
            d' = updateStats (d\<lparr>preset_models := preset_models d @ [newModel]\<rparr>) now
        in if save_ok then (Inr newModel, d') else (Inl SaveFailed, d))"

text \<open>\<^verbatim>\<open>app.post('/api/categories')\<close>, src/unnamed/part_000, lines 393-419.\<close>

definition post_categories :: "data \<Rightarrow> preset_body \<Rightarrow> nat \<Rightarrow> bool \<Rightarrow> (error + preset) \<times> data" where
  "post_categories d body now save_ok =
     (if b_name body = [] then (Inl NameEmpty, d)
      else
        let newCategory = \<lparr>p_id = ''category_'' @ string_of_nat now,
                           p_name = b_name body,
                           p_color = None,
                           p_description = b_description body,
                           p_createTime = now,
                           p_usageCount = 0,
                           p_updateTime = None\<rparr>;
            d' = updateStats (d\<lparr>categories := categories d @ [newCategory]\<rparr>) now
        in if save_ok then (Inr newCategory, d') else (Inl SaveFailed, d))"

section \<open>Text search\<close>

subsection \<open>String primitives\<close>

text \<open>White space of \<^verbatim>\<open>\s\<close> and of \<^verbatim>\<open>trim\<close> within Latin-1: TAB, LF, VT, FF, CR, SP, NBSP.\<close>

definition is_space :: "char \<Rightarrow> bool" where
  "is_space c = (of_char c \<in> {9, 10, 11, 12, 13, 32, 160 :: nat})"

text \<open>The line terminators within Latin-1, which \<^verbatim>\<open>.\<close> does not match: LF and CR.\<close>

definition is_line_terminator :: "char \<Rightarrow> bool" where
  "is_line_terminator c = (of_char c \<in> {10, 13 :: nat})"

definition toLowerCase_char :: "char \<Rightarrow> char" where
  "toLowerCase_char c =
     (let n = of_char c :: nat
      in if (65 \<le> n \<and> n \<le> 90) \<or> (192 \<le> n \<and> n \<le> 222 \<and> n \<noteq> 215)
         then char_of (n + 32) else c)"

definition toLowerCase :: "string \<Rightarrow> string" where
  "toLowerCase s = map toLowerCase_char s"

text \<open>Canonicalisation of a code unit under the \<^verbatim>\<open>i\<close> flag (upper-casing; the two
  Latin-1 letters whose capital lies outside Latin-1 keep a value of their own).\<close>

definition canonicalize :: "char \<Rightarrow> char" where
  "canonicalize c =
     (let n = of_char c :: nat
      in if (97 \<le> n \<and> n \<le> 122) \<or> (224 \<le> n \<and> n \<le> 254 \<and> n \<noteq> 247)
         then char_of (n - 32) else c)"

definition trim :: "string \<Rightarrow> string" where
  "trim s = rev (dropWhile is_space (rev (dropWhile is_space s)))"

text \<open>\<^verbatim>\<open>s.split(/\s+/)\<close>: the pieces between maximal runs of white space; a leading or
  trailing run leaves an empty piece.\<close>

function split_ws :: "string \<Rightarrow> string list" where
  "split_ws [] = [[]]"
| "split_ws (c # cs) =
     (if is_space c then [] # split_ws (dropWhile is_space cs)
      else (case split_ws cs of [] \<Rightarrow> [[c]] | p # ps \<Rightarrow> (c # p) # ps))"
  by pat_completeness auto
termination
  by (relation "measure length") (auto simp: length_dropWhile_le less_Suc_eq_le)

text \<open>\<^verbatim>\<open>parts.join(' ')\<close>.\<close>

fun join_space :: "string list \<Rightarrow> string" where
  "join_space [] = []"
| "join_space [p] = p"
| "join_space (p # q # ps) = p @ '' '' @ join_space (q # ps)"

text \<open>\<^verbatim>\<open>s.replace(/c/g, r)\<close> for a single character \<open>c\<close>.\<close>

definition replace_all :: "char \<Rightarrow> string \<Rightarrow> string \<Rightarrow> string" where
  "replace_all c r s = concat (map (\<lambda>x. if x = c then r else [x]) s)"

text \<open>\<^verbatim>\<open>keyword.replace(/\*/g, '.*').replace(/\?/g, '.')\<close> (part_000, line 192;
  data-manager.js, line 167): nothing else of the keyword is changed or escaped.\<close>

definition wildcard_source :: "string \<Rightarrow> string" where
  "wildcard_source keyword = replace_all (CHR ''?'') ''.'' (replace_all (CHR ''*'') ''.*'' keyword)"

subsection \<open>The regular expressions that are embedded\<close>

text \<open>
  \<^verbatim>\<open>new RegExp(source, 'i')\<close> is embedded for the sources built from ordinary characters,
  \<^verbatim>\<open>.\<close> and \<^verbatim>\<open>.*\<close>. A source with another syntax character (a backslash, an anchor, a
  bracket, a brace, a bar, another quantifier) is outside the embedding: \<open>parse_regex\<close>
  gives \<open>None\<close> for it, and so does everything computed from it.
\<close>

datatype regex_item = Lit char | Dot | DotStar

definition is_syntax_char :: "char \<Rightarrow> bool" where
  "is_syntax_char c = (c \<in> set (CHR 0x5C # ''^$.|?*+()[]{}''))"

fun parse_regex :: "string \<Rightarrow> regex_item list option" where
  "parse_regex [] = Some []"
| "parse_regex [c] =
     (if c = CHR ''.'' then Some [Dot]
      else if is_syntax_char c then None
      else Some [Lit c])"
| "parse_regex (c # c' # cs) =
     (if c = CHR ''.'' then
        (if c' = CHR ''*'' then map_option ((#) DotStar) (parse_regex cs)
         else map_option ((#) Dot) (parse_regex (c' # cs)))
      else if is_syntax_char c then None
      else map_option ((#) (Lit c)) (parse_regex (c' # cs)))"

text \<open>A match of the whole item list that starts at the head of the text. Whether a
  backtracking matcher finds one does not depend on the order in which it tries.\<close>

fun match_here :: "regex_item list \<Rightarrow> string \<Rightarrow> bool" where
  "match_here [] s = True"
| "match_here (Lit c # r) [] = False"
| "match_here (Lit c # r) (x # xs) = (canonicalize x = canonicalize c \<and> match_here r xs)"
| "match_here (Dot # r) [] = False"
| "match_here (Dot # r) (x # xs) = (\<not> is_line_terminator x \<and> match_here r xs)"
| "match_here (DotStar # r) [] = match_here r []"
| "match_here (DotStar # r) (x # xs) =
     (match_here r (x # xs) \<or> (\<not> is_line_terminator x \<and> match_here (DotStar # r) xs))"

text \<open>\<^verbatim>\<open>regex.test(text)\<close> without the \<^verbatim>\<open>g\<close> flag: a match starting anywhere.\<close>

fun regex_test :: "regex_item list \<Rightarrow> string \<Rightarrow> bool" where
  "regex_test r [] = match_here r []"
| "regex_test r (x # xs) = (match_here r (x # xs) \<or> regex_test r xs)"

text \<open>The callback of \<^verbatim>\<open>keywords.every\<close> (part_000, lines 190-194).\<close>

definition keyword_test :: "string \<Rightarrow> string \<Rightarrow> bool option" where
  "keyword_test keyword text = map_option (\<lambda>r. regex_test r text) (parse_regex (wildcard_source keyword))"

text \<open>\<^verbatim>\<open>keywords.every(...)\<close> stops at the first keyword that does not match.\<close>

fun every_keyword :: "string list \<Rightarrow> string \<Rightarrow> bool option" where
  "every_keyword [] text = Some True"
| "every_keyword (k # ks) text =
     (case keyword_test k text of
        None \<Rightarrow> None
      | Some False \<Rightarrow> Some False
      | Some True \<Rightarrow> every_keyword ks text)"

subsection \<open>The file list\<close>

record filters =
  q_search :: string
  q_category :: string
  q_tags :: "string list option"
  q_model :: string

definition no_filters :: filters where
  "no_filters = \<lparr>q_search = [], q_category = [], q_tags = None, q_model = []\<rparr>"

definition searchText :: "file_info \<Rightarrow> string" where
  "searchText f =
     toLowerCase (join_space [f_title f, f_description f, f_originalName f,
                              f_background f, f_prompt f, f_category f])"

definition keywords_of :: "string \<Rightarrow> string list" where
  "keywords_of searchTerm = filter (\<lambda>k. length k > 0) (split_ws (toLowerCase searchTerm))"

text \<open>\<^verbatim>\<open>files.filter(f => ...)\<close> with a callback that may be outside the embedding.\<close>

fun filter_opt :: "('a \<Rightarrow> bool option) \<Rightarrow> 'a list \<Rightarrow> 'a list option" where
  "filter_opt P [] = Some []"
| "filter_opt P (x # xs) =
     (case P x of
        None \<Rightarrow> None
      | Some b \<Rightarrow> map_option (\<lambda>ys. if b then x # ys else ys) (filter_opt P xs))"

text \<open>
  \<^verbatim>\<open>app.get('/api/files')\<close>, part_000, lines 165-216, and \<^verbatim>\<open>DataManager.getFiles\<close>,
  data-manager.js, lines 142-195: the same filter chain. \<open>q_tags = Some ts\<close> is a tag
  filter given as an array, or as one string \<open>[t]\<close>.
\<close>

definition getFiles :: "data \<Rightarrow> filters \<Rightarrow> file_info list option" where
  "getFiles d q =
     (let files0 = filter (\<lambda>f. f_status f \<noteq> ''deleted'') (files d);
          searchTerm = trim (q_search q);
          files1 = (if q_search q \<noteq> [] \<and> searchTerm \<noteq> []
                    then filter_opt (\<lambda>f. every_keyword (keywords_of searchTerm) (searchText f)) files0
                    else Some files0)
      in map_option
           (\<lambda>fs.
              let files2 = (if q_category q \<noteq> [] then filter (\<lambda>f. f_category f = q_category q) fs
                            else fs);
                  files3 = (case q_tags q of
                              None \<Rightarrow> files2
                            | Some tagList \<Rightarrow>
                                filter (\<lambda>f. \<exists>tag \<in> set tagList. tag \<in> set (f_tags f)) files2)
              in if q_model q \<noteq> [] then filter (\<lambda>f. f_model f = q_model q) files3 else files3)
           files1)"

section \<open>The Express handlers on files and presets\<close>

text \<open>\<^verbatim>\<open>list.findIndex(p)\<close>; \<open>None\<close> is the result \<^verbatim>\<open>-1\<close>.\<close>

fun findIndex :: "('a \<Rightarrow> bool) \<Rightarrow> 'a list \<Rightarrow> nat option" where
  "findIndex P [] = None"
| "findIndex P (x # xs) = (if P x then Some 0 else map_option Suc (findIndex P xs))"

text \<open>The uploaded file of \<^verbatim>\<open>multer\<close> and the form fields beside it. One tag given as
  a string is the list of that tag; no tag is the empty list.\<close>

record upload =
  u_originalname :: string
  u_filename :: string
  u_size :: nat
  u_title :: string
  u_description :: string
  u_category :: string
  u_background :: string
  u_prompt :: string
  u_model :: string
  u_tags :: "string list"

text \<open>\<^verbatim>\<open>app.post('/api/upload')\<close>, part_000, lines 124-162. \<open>req = None\<close> is a request
  without a file; \<open>fileId\<close> is the random hexadecimal id.\<close>

definition post_upload ::
    "data \<Rightarrow> upload option \<Rightarrow> string \<Rightarrow> nat \<Rightarrow> bool \<Rightarrow> (error + file_info) \<times> data" where
  "post_upload d req fileId now save_ok =
     (case req of
        None \<Rightarrow> (Inl NoFile, d)
      | Some u \<Rightarrow>
          let fileInfo = \<lparr>f_id = fileId,
                          f_originalName = u_originalname u,
                          f_encryptedName = u_filename u,
                          f_fileSize = u_size u,
                          f_uploadTime = now,
                          f_accessCount = 0,
                          f_title = (if u_title u = [] then u_originalname u else u_title u),
                          f_description = u_description u,
                          f_category = u_category u,
                          f_background = u_background u,
                          f_prompt = u_prompt u,
                          f_model = u_model u,
                          f_tags = u_tags u,
                          f_status = ''active'',
                          f_lastAccess = None\<rparr>;
              d' = updateStats (d\<lparr>files := files d @ [fileInfo]\<rparr>) now
          in if save_ok then (Inr fileInfo, d') else (Inl SaveFailed, d))"

text \<open>\<^verbatim>\<open>app.get('/api/files/:id')\<close>, part_000, lines 219-233. The result of
  \<^verbatim>\<open>saveData\<close> is not looked at: the file is sent either way.\<close>

definition get_file :: "data \<Rightarrow> string \<Rightarrow> nat \<Rightarrow> bool \<Rightarrow> (error + file_info) \<times> data" where
  "get_file d ident now save_ok =
     (case findIndex (\<lambda>f. f_id f = ident \<and> f_status f \<noteq> ''deleted'') (files d) of
        None \<Rightarrow> (Inl NotFound, d)
      | Some i \<Rightarrow>
          let file = (files d ! i)\<lparr>f_lastAccess := Some now,
                                   f_accessCount := f_accessCount (files d ! i) + 1\<rparr>;
              d' = d\<lparr>files := (files d)[i := file]\<rparr>
          in (Inr file, if save_ok then d' else d))"

text \<open>\<^verbatim>\<open>app.delete('/api/files/:id')\<close>, part_000, lines 256-279. The file is looked up
  by id alone, whatever its status.\<close>

definition delete_file :: "data \<Rightarrow> string \<Rightarrow> string \<Rightarrow> nat \<Rightarrow> bool \<Rightarrow> (error + unit) \<times> data" where
  "delete_file d ident password now save_ok =
     (if password \<noteq> ''wind'' then (Inl WrongPassword, d)
      else
        case findIndex (\<lambda>f. f_id f = ident) (files d) of
          None \<Rightarrow> (Inl NotFound, d)
        | Some fileIndex \<Rightarrow>
            let d' = updateStats
                       (d\<lparr>files := (files d)[fileIndex :=
                                      (files d ! fileIndex)\<lparr>f_status := ''deleted''\<rparr>]\<rparr>) now
            in if save_ok then (Inr (), d') else (Inl SaveFailed, d))"

text \<open>\<^verbatim>\<open>app.put('/api/models/:id')\<close>, part_000, lines 353-384. No \<^verbatim>\<open>updateStats\<close>.\<close>

definition put_model :: "data \<Rightarrow> string \<Rightarrow> preset_body \<Rightarrow> nat \<Rightarrow> bool \<Rightarrow> (error + preset) \<times> data" where
  "put_model d modelId body now save_ok =
     (if b_name body = [] then (Inl NameEmpty, d)
      else
        case findIndex (\<lambda>model. p_id model = modelId) (preset_models d) of
          None \<Rightarrow> (Inl NotFound, d)
        | Some modelIndex \<Rightarrow>
            let model = (preset_models d ! modelIndex)
                          \<lparr>p_name := b_name body,
                           p_description := b_description body,
                           p_updateTime := Some now\<rparr>;
                d' = d\<lparr>preset_models := (preset_models d)[modelIndex := model]\<rparr>
            in if save_ok then (Inr model, d') else (Inl SaveFailed, d))"

text \<open>\<^verbatim>\<open>app.put('/api/categories/:id')\<close>, part_000, lines 421-452.\<close>

definition put_category :: "data \<Rightarrow> string \<Rightarrow> preset_body \<Rightarrow> nat \<Rightarrow> bool \<Rightarrow> (error + preset) \<times> data" where
  "put_category d categoryId body now save_ok =
     (if b_name body = [] then (Inl NameEmpty, d)
      else
        case findIndex (\<lambda>category. p_id category = categoryId) (categories d) of
          None \<Rightarrow> (Inl NotFound, d)
        | Some categoryIndex \<Rightarrow>
            let category = (categories d ! categoryIndex)
                             \<lparr>p_name := b_name body,
                              p_description := b_description body,
                              p_updateTime := Some now\<rparr>;
                d' = d\<lparr>categories := (categories d)[categoryIndex := category]\<rparr>
            in if save_ok then (Inr category, d') else (Inl SaveFailed, d))"

text \<open>\<^verbatim>\<open>list.splice(i, 1)\<close>: the list without its element at \<open>i\<close>.\<close>

definition splice1 :: "nat \<Rightarrow> 'a list \<Rightarrow> 'a list" where
  "splice1 i xs = take i xs @ drop (Suc i) xs"

text \<open>\<^verbatim>\<open>app.delete('/api/categories/:id')\<close>, part_000, lines 454-485. The files that
  use the category are those whose \<^verbatim>\<open>category\<close> is the category's name, of any status.\<close>

definition delete_category :: "data \<Rightarrow> string \<Rightarrow> nat \<Rightarrow> bool \<Rightarrow> (error + preset) \<times> data" where
  "delete_category d categoryId now save_ok =
     (case findIndex (\<lambda>category. p_id category = categoryId) (categories d) of
        None \<Rightarrow> (Inl NotFound, d)
      | Some categoryIndex \<Rightarrow>
          let filesUsingCategory =
                filter (\<lambda>file. f_category file = p_name (categories d ! categoryIndex)) (files d)
          in if length filesUsingCategory > 0 then (Inl (InUse (length filesUsingCategory)), d)
             else
               let deletedCategory = categories d ! categoryIndex;
                   d' = updateStats (d\<lparr>categories := splice1 categoryIndex (categories d)\<rparr>) now
               in if save_ok then (Inr deletedCategory, d') else (Inl SaveFailed, d))"

section \<open>The static DataManager\<close>

text \<open>
  src/cursor-sonic/static-pages/js/data-manager.js. \<open>dm_data\<close> is \<^verbatim>\<open>this.data\<close>,
  \<open>dm_storage\<close> the document under \<^verbatim>\<open>localStorage[storageKey]\<close>. The listeners are
  callbacks of the user interface and are left out.
\<close>

record manager =
  dm_data :: data
  dm_storage :: "data option"

text \<open>\<^verbatim>\<open>saveData\<close>, lines 84-94: the statistics are recomputed in \<^verbatim>\<open>this.data\<close>, then
  \<^verbatim>\<open>localStorage.setItem\<close> runs; \<open>store_ok = False\<close> is the case where it throws, and the
  exception is thrown on.\<close>

definition saveData :: "manager \<Rightarrow> nat \<Rightarrow> bool \<Rightarrow> (error + unit) \<times> manager" where
  "saveData m now store_ok =
     (let d = updateStats (dm_data m) now
      in if store_ok then (Inr (), \<lparr>dm_data = d, dm_storage = Some d\<rparr>)
         else (Inl SaveFailed, m\<lparr>dm_data := d\<rparr>))"

text \<open>\<^verbatim>\<open>getStats\<close>, lines 130-137.\<close>

definition getStats :: "manager \<Rightarrow> settings" where
  "getStats m = settings (dm_data m)"

text \<open>\<^verbatim>\<open>deleteFile\<close>, lines 315-333; the password is not read.\<close>

definition deleteFile :: "manager \<Rightarrow> string \<Rightarrow> nat \<Rightarrow> bool \<Rightarrow> (error + unit) \<times> manager" where
  "deleteFile m ident now store_ok =
     (case findIndex (\<lambda>f. f_id f = ident) (files (dm_data m)) of
        None \<Rightarrow> (Inl NotFound, m)
      | Some fileIndex \<Rightarrow>
          saveData
            (m\<lparr>dm_data := (dm_data m)
                  \<lparr>files := (files (dm_data m))[fileIndex :=
                              (files (dm_data m) ! fileIndex)\<lparr>f_status := ''deleted''\<rparr>]\<rparr>\<rparr>)
            now store_ok)"

text \<open>\<^verbatim>\<open>addTag\<close>, lines 348-373.\<close>

definition addTag :: "manager \<Rightarrow> preset_body \<Rightarrow> nat \<Rightarrow> bool \<Rightarrow> (error + preset) \<times> manager" where
  "addTag m tagData now store_ok =
     (if b_name tagData = [] then (Inl NameEmpty, m)
      else
        let newTag = \<lparr>p_id = ''tag_'' @ string_of_nat now,
                      p_name = b_name tagData,
                      p_color = Some (if b_color tagData = [] then ''#3498db'' else b_color tagData),
                      p_description = b_description tagData,
                      p_createTime = now,
                      p_usageCount = 0,
                      p_updateTime = None\<rparr>;
            m' = m\<lparr>dm_data := (dm_data m)\<lparr>preset_tags := preset_tags (dm_data m) @ [newTag]\<rparr>\<rparr>
        in case saveData m' now store_ok of
             (Inl e, m'') \<Rightarrow> (Inl e, m'')
           | (Inr _, m'') \<Rightarrow> (Inr newTag, m''))"

text \<open>\<^verbatim>\<open>deleteTag\<close>, lines 376-395: the files are not looked at.\<close>

definition deleteTag :: "manager \<Rightarrow> string \<Rightarrow> nat \<Rightarrow> bool \<Rightarrow> (error + preset) \<times> manager" where
  "deleteTag m tagId now store_ok =
     (case findIndex (\<lambda>tag. p_id tag = tagId) (preset_tags (dm_data m)) of
        None \<Rightarrow> (Inl NotFound, m)
      | Some tagIndex \<Rightarrow>
          let deletedTag = preset_tags (dm_data m) ! tagIndex;
              m' = m\<lparr>dm_data := (dm_data m)
                         \<lparr>preset_tags := splice1 tagIndex (preset_tags (dm_data m))\<rparr>\<rparr>
          in case saveData m' now store_ok of
               (Inl e, m'') \<Rightarrow> (Inl e, m'')
             | (Inr _, m'') \<Rightarrow> (Inr deletedTag, m''))"

text \<open>\<^verbatim>\<open>deleteCategory\<close>, lines 570-597.\<close>

definition deleteCategory :: "manager \<Rightarrow> string \<Rightarrow> nat \<Rightarrow> bool \<Rightarrow> (error + preset) \<times> manager" where
  "deleteCategory m ident now store_ok =
     (case findIndex (\<lambda>category. p_id category = ident) (categories (dm_data m)) of
        None \<Rightarrow> (Inl NotFound, m)
      | Some categoryIndex \<Rightarrow>
          let filesUsingCategory =
                filter (\<lambda>file. f_category file = p_name (categories (dm_data m) ! categoryIndex))
                  (files (dm_data m))
          in if length filesUsingCategory > 0 then (Inl (InUse (length filesUsingCategory)), m)
             else
               let deletedCategory = categories (dm_data m) ! categoryIndex;
                   m' = m\<lparr>dm_data := (dm_data m)
                              \<lparr>categories := splice1 categoryIndex (categories (dm_data m))\<rparr>\<rparr>
               in case saveData m' now store_ok of
                    (Inl e, m'') \<Rightarrow> (Inl e, m'')
                  | (Inr _, m'') \<Rightarrow> (Inr deletedCategory, m''))"

subsection \<open>The tag and model managers of the page\<close>

text \<open>
  src/docs/static-pages/js/components.js, working on \<^verbatim>\<open>this.dataManager.data\<close>. The
  refresh of the preset manager that follows \<^verbatim>\<open>saveData\<close> reloads the lists for display
  and is left out.
\<close>

text \<open>\<^verbatim>\<open>deleteTag\<close>, components.js, lines 1104-1131.\<close>

definition components_deleteTag :: "manager \<Rightarrow> string \<Rightarrow> nat \<Rightarrow> bool \<Rightarrow> (error + unit) \<times> manager" where
  "components_deleteTag m tagId now store_ok =
     (let filesUsingTag = filter (\<lambda>file. tagId \<in> set (f_tags file)) (files (dm_data m))
      in if length filesUsingTag > 0 then (Inl (InUse (length filesUsingTag)), m)
         else
           case findIndex (\<lambda>tag. p_id tag = tagId) (preset_tags (dm_data m)) of
             None \<Rightarrow> (Inl NotFound, m)
           | Some tagIndex \<Rightarrow>
               saveData
                 (m\<lparr>dm_data := (dm_data m)
                       \<lparr>preset_tags := splice1 tagIndex (preset_tags (dm_data m))\<rparr>\<rparr>)
                 now store_ok)"

text \<open>\<^verbatim>\<open>deleteModel\<close>, components.js, lines 1231-1258.\<close>

definition components_deleteModel :: "manager \<Rightarrow> string \<Rightarrow> nat \<Rightarrow> bool \<Rightarrow> (error + unit) \<times> manager" where
  "components_deleteModel m modelId now store_ok =
     (let filesUsingModel = filter (\<lambda>file. f_model file = modelId) (files (dm_data m))
      in if length filesUsingModel > 0 then (Inl (InUse (length filesUsingModel)), m)
         else
           case findIndex (\<lambda>model. p_id model = modelId) (preset_models (dm_data m)) of
             None \<Rightarrow> (Inl NotFound, m)
           | Some modelIndex \<Rightarrow>
               saveData
                 (m\<lparr>dm_data := (dm_data m)
                       \<lparr>preset_models := splice1 modelIndex (preset_models (dm_data m))\<rparr>\<rparr>)
                 now store_ok)"

section \<open>The DatabaseManager with tags kept by name\<close>

text \<open>
  src/trae-trash/utils/database-manager.js. A file lists its tags by name and its models
  as objects with a name; there is no collection of tags. \<open>db_data\<close> is \<^verbatim>\<open>this.data\<close>
  (its \<^verbatim>\<open>version\<close>, \<^verbatim>\<open>created_at\<close> and \<^verbatim>\<open>settings\<close> are never written and are left
  out), \<open>db_disk\<close> the document in \<^verbatim>\<open>data.json\<close>.
\<close>

record model_ref =
  m_name :: string
  m_version :: string

record html_file =
  h_id :: string
  h_original_name :: string
  h_scene :: string
  h_prompt :: string
  h_models :: "model_ref list"
  h_tags :: "string list"
  h_category :: string
  h_description :: string
  h_file_size :: nat
  h_created_at :: nat
  h_updated_at :: nat
  h_access_count :: nat
  h_rating :: nat
  h_compatibility :: string

text \<open>The counters of the statistics are objects used as dictionaries; the keys are kept
  in the order of their first insertion.\<close>

record statistics =
  total_files :: nat
  total_size :: nat
  total_access :: nat
  s_categories :: "(string \<times> nat) list"
  s_tags :: "(string \<times> nat) list"
  s_models :: "(string \<times> nat) list"
  total_tags :: nat
  total_models :: nat

record database =
  html_files :: "html_file list"
  statistics :: statistics
  last_updated :: nat

record db_manager =
  db_data :: database
  db_disk :: "database option"

text \<open>Stands for the three-character literal U+672A U+5206 U+7C7B, the name of the
  category of a file that has none.\<close>

definition uncategorized :: string where
  "uncategorized = ''uncategorized''"

text \<open>\<^verbatim>\<open>stats[key] = (stats[key] || 0) + 1\<close>.\<close>

fun bump :: "string \<Rightarrow> (string \<times> nat) list \<Rightarrow> (string \<times> nat) list" where
  "bump k [] = [(k, 1)]"
| "bump k ((k', n) # kvs) = (if k = k' then (k', n + 1) # kvs else (k', n) # bump k kvs)"

text \<open>\<^verbatim>\<open>updateStatistics\<close>, lines 297-332.\<close>

definition updateStatistics :: "database \<Rightarrow> database" where
  "updateStatistics db =
     (let fs = html_files db;
          cats = fold bump (map (\<lambda>file. if h_category file = [] then uncategorized
                                          else h_category file) fs) [];
          tags = fold bump (concat (map h_tags fs)) [];
          models = fold bump (concat (map (\<lambda>file. map m_name (h_models file)) fs)) []
      in db\<lparr>statistics :=
              \<lparr>total_files = length fs,
               total_size = sum_list (map h_file_size fs),
               total_access = sum_list (map h_access_count fs),
               s_categories = cats,
               s_tags = tags,
               s_models = models,
               total_tags = length tags,
               total_models = length models\<rparr>\<rparr>)"

text \<open>\<^verbatim>\<open>saveData\<close>, lines 107-116: \<^verbatim>\<open>last_updated\<close> is set in memory, then the document
  is written; \<open>write_ok = False\<close> is the case where \<^verbatim>\<open>writeFileSync\<close> throws, which is
  caught and answered with \<^verbatim>\<open>false\<close>.\<close>

definition db_saveData :: "db_manager \<Rightarrow> nat \<Rightarrow> bool \<Rightarrow> bool \<times> db_manager" where
  "db_saveData m now write_ok =
     (let d = (db_data m)\<lparr>last_updated := now\<rparr>
      in if write_ok then (True, \<lparr>db_data = d, db_disk = Some d\<rparr>)
         else (False, m\<lparr>db_data := d\<rparr>))"

text \<open>The argument of \<^verbatim>\<open>addHTMLFile\<close>. An absent string is empty, an absent number is
  \<open>0\<close>; \<open>i_models = None\<close> is an absent list of models (an empty list is present).\<close>

record html_file_input =
  i_id :: string
  i_original_name :: string
  i_scene :: string
  i_prompt :: string
  i_models :: "model_ref list option"
  i_tags :: "string list"
  i_category :: string
  i_description :: string
  i_file_size :: nat
  i_created_at :: "nat option"
  i_access_count :: nat
  i_rating :: nat
  i_compatibility :: string

text \<open>\<^verbatim>\<open>addHTMLFile\<close>, lines 123-175. \<open>hashed\<close> is what \<^verbatim>\<open>encryptFilename\<close> returns (a
  digest of the name and the clock). An exception of the body is caught and answered
  with \<^verbatim>\<open>false\<close>.\<close>

definition addHTMLFile ::
    "db_manager \<Rightarrow> html_file_input \<Rightarrow> string \<Rightarrow> nat \<Rightarrow> bool \<Rightarrow> bool \<times> db_manager" where
  "addHTMLFile m fileInfo hashed now write_ok =
     (if i_original_name fileInfo = [] \<or> i_scene fileInfo = [] \<or> i_prompt fileInfo = []
         \<or> i_models fileInfo = None
      then (False, m)
      else
        let ident = (if i_id fileInfo = [] then hashed else i_id fileInfo);
            record = \<lparr>h_id = ident,
                      h_original_name = i_original_name fileInfo,
                      h_scene = i_scene fileInfo,
                      h_prompt = i_prompt fileInfo,
                      h_models = (case i_models fileInfo of None \<Rightarrow> [] | Some ms \<Rightarrow> ms),
                      h_tags = i_tags fileInfo,
                      h_category = (if i_category fileInfo = [] then uncategorized
                                    else i_category fileInfo),
                      h_description = i_description fileInfo,
                      h_file_size = i_file_size fileInfo,
                      h_created_at = (case i_created_at fileInfo of None \<Rightarrow> now | Some t \<Rightarrow> t),
                      h_updated_at = now,
                      h_access_count = i_access_count fileInfo,
                      h_rating = i_rating fileInfo,
                      h_compatibility = (if i_compatibility fileInfo = [] then ''{}''
                                         else i_compatibility fileInfo)\<rparr>;
            fs = html_files (db_data m);
            fs' = (case findIndex (\<lambda>f. h_id f = ident) fs of
                     Some existingIndex \<Rightarrow> fs[existingIndex := record]
                   | None \<Rightarrow> fs @ [record])
        in db_saveData (m\<lparr>db_data := updateStatistics ((db_data m)\<lparr>html_files := fs'\<rparr>)\<rparr>)
             now write_ok)"

text \<open>The body of the \<^verbatim>\<open>forEach\<close> of \<^verbatim>\<open>editTag\<close>, lines 437-445: the first occurrence of
  the old name is overwritten.\<close>

definition edit_tag_in_file :: "string \<Rightarrow> string \<Rightarrow> nat \<Rightarrow> html_file \<Rightarrow> html_file" where
  "edit_tag_in_file oldTagName newTagName now file =
     (case findIndex (\<lambda>t. t = oldTagName) (h_tags file) of
        None \<Rightarrow> file
      | Some index \<Rightarrow> file\<lparr>h_tags := (h_tags file)[index := newTagName], h_updated_at := now\<rparr>)"

text \<open>\<^verbatim>\<open>editTag\<close>, lines 424-463. \<^verbatim>\<open>handleEditTagRequest\<close> (src/trae-trash/server.js, lines
  369-456) runs the same loop on the document read from disk.\<close>

definition editTag :: "db_manager \<Rightarrow> string \<Rightarrow> string \<Rightarrow> nat \<Rightarrow> bool \<Rightarrow> bool \<times> db_manager" where
  "editTag m oldTagName newTagName now write_ok =
     (if oldTagName = [] \<or> newTagName = [] then (False, m)
      else if oldTagName = newTagName then (False, m)
      else
        let fs = html_files (db_data m);
            updatedCount = length (filter (\<lambda>file. oldTagName \<in> set (h_tags file)) fs)
        in if updatedCount = 0 then (False, m)
           else db_saveData
                  (m\<lparr>db_data := updateStatistics
                        ((db_data m)\<lparr>html_files :=
                                       map (edit_tag_in_file oldTagName newTagName now) fs\<rparr>)\<rparr>)
                  now write_ok)"

section \<open>Example documents\<close>

definition ex_file :: "string \<Rightarrow> string \<Rightarrow> string \<Rightarrow> string list \<Rightarrow> file_info" where
  "ex_file ident title category tags =
     \<lparr>f_id = ident, f_originalName = [], f_encryptedName = [], f_fileSize = 0,
      f_uploadTime = 0, f_accessCount = 0, f_title = title, f_description = [],
      f_category = category, f_background = [], f_prompt = [], f_model = [],
      f_tags = tags, f_status = ''active'', f_lastAccess = None\<rparr>"

definition ex_body :: "string \<Rightarrow> preset_body" where
  "ex_body name = \<lparr>b_name = name, b_color = [], b_description = []\<rparr>"

definition ex_preset :: "string \<Rightarrow> string \<Rightarrow> preset" where
  "ex_preset ident name =
     \<lparr>p_id = ident, p_name = name, p_color = None, p_description = [],
      p_createTime = 0, p_usageCount = 0, p_updateTime = None\<rparr>"

definition ex_upload :: "string \<Rightarrow> string list \<Rightarrow> upload" where
  "ex_upload name tags =
     \<lparr>u_originalname = name, u_filename = ''0123456789abcdef0123456789abcdef.html'',
      u_size = 100, u_title = [], u_description = [], u_category = [], u_background = [],
      u_prompt = [], u_model = [], u_tags = tags\<rparr>"

definition ex_search :: "string \<Rightarrow> filters" where
  "ex_search s = \<lparr>q_search = s, q_category = [], q_tags = None, q_model = []\<rparr>"

definition ex_doc :: data where
  "ex_doc = updateStats (default_data\<lparr>files := [ex_file ''f1'' ''a'' [] [],
                                                  ex_file ''f2'' ''b'' [] []]\<rparr>) 1"

text \<open>The document of \<^verbatim>\<open>createDefaultData\<close> (database-manager.js, lines 50-72), with
  the clock at \<open>0\<close>, in a manager that has written nothing yet.\<close>

definition ex_db :: db_manager where
  "ex_db =
     \<lparr>db_data = \<lparr>html_files = [],
                  statistics = \<lparr>total_files = 0, total_size = 0, total_access = 0,
                                s_categories = [], s_tags = [], s_models = [],
                                total_tags = 0, total_models = 0\<rparr>,
                  last_updated = 0\<rparr>,
      db_disk = None\<rparr>"

definition ex_input :: "string \<Rightarrow> string list \<Rightarrow> html_file_input" where
  "ex_input ident tags =
     \<lparr>i_id = ident, i_original_name = ''page.html'', i_scene = ''demo'', i_prompt = ''draw'',
      i_models = Some [\<lparr>m_name = ''m1'', m_version = ''1''\<rparr>], i_tags = tags, i_category = [],
      i_description = [], i_file_size = 10, i_created_at = None, i_access_count = 0,
      i_rating = 0, i_compatibility = []\<rparr>"

definition ex_manager :: manager where
  "ex_manager = \<lparr>dm_data = ex_doc, dm_storage = Some ex_doc\<rparr>"

definition ex_html :: "string \<Rightarrow> string list \<Rightarrow> html_file" where
  "ex_html ident tags =
     \<lparr>h_id = ident, h_original_name = ''page.html'', h_scene = ''demo'', h_prompt = ''draw'',
      h_models = [\<lparr>m_name = ''m1'', m_version = ''1''\<rparr>], h_tags = tags,
      h_category = uncategorized, h_description = [], h_file_size = 10, h_created_at = 0,
      h_updated_at = 0, h_access_count = 0, h_rating = 0, h_compatibility = ''{}''\<rparr>"

definition ex_db_with :: "html_file list \<Rightarrow> db_manager" where
  "ex_db_with fs =
     \<lparr>db_data = updateStatistics ((db_data ex_db)\<lparr>html_files := fs\<rparr>),
      db_disk = Some (updateStatistics ((db_data ex_db)\<lparr>html_files := fs\<rparr>))\<rparr>"

definition ex_presets :: data where
  "ex_presets = default_data\<lparr>preset_models := [ex_preset ''model_1'' ''A''],
                             categories := [ex_preset ''category_1'' ''A'']\<rparr>"

section \<open>The text filter as the specification words it\<close>

text \<open>
  For comparison with \<open>keyword_test\<close>: every character of a keyword stands for itself,
  but \<^verbatim>\<open>*\<close> for any run of characters and \<^verbatim>\<open>?\<close> for exactly one character; letters
  are compared without regard to case; the keyword matches when it matches some
  substring of the text.
\<close>

datatype wildcard = Literal char | AnyOne | AnyRun

definition spec_pattern :: "string \<Rightarrow> wildcard list" where
  "spec_pattern keyword =
     map (\<lambda>c. if c = CHR ''*'' then AnyRun else if c = CHR ''?'' then AnyOne else Literal c)
       keyword"

fun spec_match_here :: "wildcard list \<Rightarrow> string \<Rightarrow> bool" where
  "spec_match_here [] s = True"
| "spec_match_here (Literal c # p) [] = False"
| "spec_match_here (Literal c # p) (x # xs) = (canonicalize x = canonicalize c \<and> spec_match_here p xs)"
| "spec_match_here (AnyOne # p) [] = False"
| "spec_match_here (AnyOne # p) (x # xs) = spec_match_here p xs"
| "spec_match_here (AnyRun # p) [] = spec_match_here p []"
| "spec_match_here (AnyRun # p) (x # xs) =
     (spec_match_here p (x # xs) \<or> spec_match_here (AnyRun # p) xs)"

fun spec_search :: "wildcard list \<Rightarrow> string \<Rightarrow> bool" where
  "spec_search p [] = spec_match_here p []"
| "spec_search p (x # xs) = (spec_match_here p (x # xs) \<or> spec_search p xs)"

text \<open>A keyword whose only regular-expression syntax characters are the two wildcards.\<close>

definition plain_keyword :: "string \<Rightarrow> bool" where
  "plain_keyword keyword =
     list_all (\<lambda>c. c = CHR ''*'' \<or> c = CHR ''?'' \<or> \<not> is_syntax_char c) keyword"

definition one_line :: "string \<Rightarrow> bool" where
  "one_line s = list_all (\<lambda>x. \<not> is_line_terminator x) s"

text \<open>The regular-expression source and the parsed item of one character of a plain
  keyword, for the proofs.\<close>

definition source_of_char :: "char \<Rightarrow> string" where
  "source_of_char c = (if c = CHR ''*'' then ''.*'' else if c = CHR ''?'' then ''.'' else [c])"

definition item_of_char :: "char \<Rightarrow> regex_item" where
  "item_of_char c = (if c = CHR ''*'' then DotStar else if c = CHR ''?'' then Dot else Lit c)"

section \<open>The preset manager that keeps names in a set\<close>

text \<open>
  src/unnamed/part_004. \<^verbatim>\<open>this.presets.tags\<close> is a \<^verbatim>\<open>Set\<close> of names, kept here as
  the list of its elements in insertion order. The argument is a string (an absent or
  empty one is refused like any string that is blank after \<^verbatim>\<open>trim\<close>); the listeners
  are callbacks of the page and are left out.
\<close>

text \<open>\<^verbatim>\<open>addTag\<close>, part_004, lines 81-102 (\<^verbatim>\<open>addModel\<close>, lines 109-130, is the same on
  the set of models).\<close>

definition preset_manager_addTag :: "string list \<Rightarrow> string \<Rightarrow> bool \<times> string list" where
  "preset_manager_addTag tags tag =
     (if tag = [] then (False, tags)
      else
        let trimmedTag = trim tag
        in if trimmedTag = [] then (False, tags)
           else if trimmedTag \<in> set tags then (False, tags)
           else (True, tags @ [trimmedTag]))"

section \<open>Decimal rendering is injective\<close>

lemma digit_char_inj: "a < 10 \<Longrightarrow> b < 10 \<Longrightarrow> digit_char a = digit_char b \<Longrightarrow> a = b"
proof -
  assume a: "a < 10" and b: "b < 10" and e: "digit_char a = digit_char b"
  from e have "of_char (char_of (48 + a) :: char) = (of_char (char_of (48 + b) :: char) :: nat)"
    by (simp add: digit_char_def)
  with a b show "a = b" by simp
qed

lemma string_of_nat_nonempty: "string_of_nat n \<noteq> []"
  by (subst string_of_nat.simps) simp

lemma string_of_nat_inj: "string_of_nat m = string_of_nat n \<Longrightarrow> m = n"
proof (induction m arbitrary: n rule: string_of_nat.induct)
  case (1 m)
  show ?case
  proof (cases "m < 10")
    case True
    then have m: "string_of_nat m = [digit_char m]"
      by (subst string_of_nat.simps) simp
    show ?thesis
    proof (cases "n < 10")
      case n: True
      then have "string_of_nat n = [digit_char n]"
        by (subst string_of_nat.simps) simp
      with m "1.prems" have "digit_char m = digit_char n" by simp
      with True n show ?thesis by (rule digit_char_inj)
    next
      case False
      then have "string_of_nat n = string_of_nat (n div 10) @ [digit_char (n mod 10)]"
        by (subst string_of_nat.simps) simp
      with m "1.prems" have "string_of_nat (n div 10) = []" by simp
      then show ?thesis by (simp add: string_of_nat_nonempty)
    qed
  next
    case False
    then have m: "string_of_nat m = string_of_nat (m div 10) @ [digit_char (m mod 10)]"
      by (subst string_of_nat.simps) simp
    show ?thesis
    proof (cases "n < 10")
      case True
      then have "string_of_nat n = [digit_char n]"
        by (subst string_of_nat.simps) simp
      with m "1.prems" have "string_of_nat (m div 10) = []" by simp
      then show ?thesis by (simp add: string_of_nat_nonempty)
    next
      case n: False
      then have "string_of_nat n = string_of_nat (n div 10) @ [digit_char (n mod 10)]"
        by (subst string_of_nat.simps) simp
      with m "1.prems" have q: "string_of_nat (m div 10) = string_of_nat (n div 10)"
        and r: "digit_char (m mod 10) = digit_char (n mod 10)" by simp_all
      from "1.IH" [OF False q] have "m div 10 = n div 10" .
      moreover from r have "m mod 10 = n mod 10" by (intro digit_char_inj) simp_all
      ultimately show ?thesis by (metis div_mult_mod_eq)
    qed
  qed
qed

section \<open>The category count\<close>

lemma length_category_set:
  "length (category_set fs) = card {c. c \<noteq> [] \<and> (\<exists>f \<in> set fs. f_category f = c)}"
proof -
  have "set (filter (\<lambda>c. c \<noteq> []) (map f_category fs))
          = {c. c \<noteq> [] \<and> (\<exists>f \<in> set fs. f_category f = c)}"
    by auto
  then show ?thesis
    unfolding category_set_def by (simp add: length_remdups_card_conv)
qed

section \<open>Looking up by index\<close>

lemma findIndex_Some:
  "findIndex P xs = Some i \<Longrightarrow> i < length xs \<and> P (xs ! i) \<and> (\<forall>j < i. \<not> P (xs ! j))"
proof (induction xs arbitrary: i)
  case Nil
  then show ?case by simp
next
  case (Cons x xs)
  show ?case
  proof (cases "P x")
    case True
    with Cons.prems show ?thesis by simp
  next
    case False
    with Cons.prems obtain k where k: "findIndex P xs = Some k" "i = Suc k" by auto
    from Cons.IH [OF k(1)] False k(2) show ?thesis
      by (auto simp: nth_Cons split: nat.splits)
  qed
qed

lemma findIndex_None: "(findIndex P xs = None) = (\<forall>x \<in> set xs. \<not> P x)"
  by (induction xs) auto

lemma findIndex_first:
  "i < length xs \<Longrightarrow> P (xs ! i) \<Longrightarrow> \<forall>j < i. \<not> P (xs ! j) \<Longrightarrow> findIndex P xs = Some i"
proof (induction xs arbitrary: i)
  case Nil
  then show ?case by simp
next
  case (Cons x xs)
  show ?case
  proof (cases i)
    case 0
    with Cons.prems show ?thesis by simp
  next
    case (Suc k)
    with Cons.prems have "\<not> P x" by auto
    moreover from Suc Cons.prems have "findIndex P xs = Some k"
      by (intro Cons.IH) auto
    ultimately show ?thesis using Suc by simp
  qed
qed

lemma findIndex_cong_nth:
  "length ys = length xs \<Longrightarrow> \<forall>j < length xs. P (ys ! j) = P (xs ! j) \<Longrightarrow>
   findIndex P ys = findIndex P xs"
proof (induction xs arbitrary: ys)
  case Nil
  then show ?case by simp
next
  case (Cons x xs)
  then obtain y ys' where ys: "ys = y # ys'" by (cases ys) auto
  with Cons.prems have h: "P y = P x" by auto
  from ys Cons.prems have "\<forall>j < length xs. P (ys' ! j) = P (xs ! j)" by auto
  with ys Cons.prems have "findIndex P ys' = findIndex P xs"
    by (intro Cons.IH) auto
  with ys h show ?case by simp
qed

lemma distinct_ids_other:
  "distinct (map f_id xs) \<Longrightarrow> i < length xs \<Longrightarrow> j < length xs \<Longrightarrow> f_id (xs ! j) = f_id (xs ! i) \<Longrightarrow> j = i"
  by (metis distinct_conv_nth length_map nth_map)

lemma filter_active_after_delete:
  assumes i: "i < length xs" and d: "distinct (map f_id xs)"
  shows "filter (\<lambda>f. f_status f \<noteq> ''deleted'') (xs[i := (xs ! i)\<lparr>f_status := ''deleted''\<rparr>])
         = filter (\<lambda>f. f_id f \<noteq> f_id (xs ! i)) (filter (\<lambda>f. f_status f \<noteq> ''deleted'') xs)"
  using assms
proof (induction xs arbitrary: i)
  case Nil
  then show ?case by simp
next
  case (Cons x xs)
  show ?case
  proof (cases i)
    case 0
    from Cons.prems have "f_id x \<notin> f_id ` set xs" by simp
    then have "\<forall>f \<in> set xs. f_id f \<noteq> f_id x" by (metis imageI)
    then have "filter (\<lambda>f. f_id f \<noteq> f_id x) (filter (\<lambda>f. f_status f \<noteq> ''deleted'') xs)
                 = filter (\<lambda>f. f_status f \<noteq> ''deleted'') xs"
      by (auto intro: filter_cong)
    with 0 show ?thesis by simp
  next
    case (Suc k)
    with Cons.prems have k: "k < length xs" and dx: "distinct (map f_id xs)" by auto
    from Cons.prems have "f_id x \<notin> f_id ` set xs" by simp
    with k have ne: "f_id x \<noteq> f_id (xs ! k)" by (metis imageI nth_mem)
    from Cons.IH [OF k dx] Suc ne show ?thesis by simp
  qed
qed

lemma length_filter_active_after_delete:
  assumes i: "i < length xs" and a: "f_status (xs ! i) \<noteq> ''deleted''"
  shows "length (filter (\<lambda>f. f_status f \<noteq> ''deleted'') (xs[i := (xs ! i)\<lparr>f_status := ''deleted''\<rparr>])) + 1
         = length (filter (\<lambda>f. f_status f \<noteq> ''deleted'') xs)"
  using assms
proof (induction xs arbitrary: i)
  case Nil
  then show ?case by simp
next
  case (Cons x xs)
  show ?case
  proof (cases i)
    case 0
    with Cons.prems show ?thesis by simp
  next
    case (Suc k)
    with Cons.prems have "k < length xs" "f_status (xs ! k) \<noteq> ''deleted''" by auto
    from Cons.IH [OF this] Suc show ?thesis by simp
  qed
qed

lemma list_update_same_status:
  "i < length xs \<Longrightarrow> f_status (xs ! i) = s \<Longrightarrow> xs[i := (xs ! i)\<lparr>f_status := s\<rparr>] = xs"
  by (simp add: list_update_same_conv)

lemma getFiles_no_filters:
  "getFiles d no_filters = Some (filter (\<lambda>f. f_status f \<noteq> ''deleted'') (files d))"
  by (simp add: getFiles_def no_filters_def Let_def)

section \<open>Marking a file as deleted\<close>

lemma delete_file_found:
  assumes found: "findIndex (\<lambda>f. f_id f = ident) (files d) = Some i"
  shows "delete_file d ident ''wind'' now True
         = (Inr (), updateStats (d\<lparr>files := (files d)[i := (files d ! i)\<lparr>f_status := ''deleted''\<rparr>]\<rparr>) now)"
  using found by (simp add: delete_file_def Let_def)

lemma findIndex_id_after_delete:
  assumes found: "findIndex (\<lambda>f. f_id f = ident) xs = Some i"
  shows "findIndex (\<lambda>f. f_id f = ident) (xs[i := (xs ! i)\<lparr>f_status := ''deleted''\<rparr>]) = Some i"
proof -
  from findIndex_Some [OF found] have i: "i < length xs" by simp
  have "findIndex (\<lambda>f. f_id f = ident) (xs[i := (xs ! i)\<lparr>f_status := ''deleted''\<rparr>])
        = findIndex (\<lambda>f. f_id f = ident) xs"
    using i by (intro findIndex_cong_nth) (auto simp: nth_list_update)
  with found show ?thesis by simp
qed

lemma get_file_after_delete:
  assumes found: "findIndex (\<lambda>f. f_id f = ident) xs = Some i"
    and d: "distinct (map f_id xs)"
  shows "findIndex (\<lambda>f. f_id f = ident \<and> f_status f \<noteq> ''deleted'')
           (xs[i := (xs ! i)\<lparr>f_status := ''deleted''\<rparr>]) = None"
proof -
  from findIndex_Some [OF found] have i: "i < length xs" and id: "f_id (xs ! i) = ident" by auto
  have "\<not> (f_id f = ident \<and> f_status f \<noteq> ''deleted'')"
    if "f \<in> set (xs[i := (xs ! i)\<lparr>f_status := ''deleted''\<rparr>])" for f
  proof -
    from that obtain j where j: "j < length xs" "f = (xs[i := (xs ! i)\<lparr>f_status := ''deleted''\<rparr>]) ! j"
      by (auto simp: in_set_conv_nth)
    show ?thesis
    proof (cases "j = i")
      case True
      with j i show ?thesis by simp
    next
      case False
      with j have "f = xs ! j" by simp
      moreover from False j i d id have "f_id (xs ! j) \<noteq> ident"
        using distinct_ids_other by blast
      ultimately show ?thesis by simp
    qed
  qed
  then show ?thesis by (simp add: findIndex_None)
qed

text \<open>\<^verbatim>\<open>DataManager.deleteFile\<close> reads no password and commits the document that the
  Express handler commits when the password is right.\<close>

lemma deleteFile_same_document:
  assumes "findIndex (\<lambda>f. f_id f = ident) (files (dm_data m)) = Some i"
  shows "deleteFile m ident now True
         = (Inr (), \<lparr>dm_data = snd (delete_file (dm_data m) ident ''wind'' now True),
                     dm_storage = Some (snd (delete_file (dm_data m) ident ''wind'' now True))\<rparr>)"
  using assms by (simp add: deleteFile_def delete_file_def saveData_def Let_def)

section \<open>Renaming a tag across the files\<close>

lemma findIndex_eq_mem: "(findIndex (\<lambda>t. t = a) xs = None) = (a \<notin> set xs)"
  by (simp add: findIndex_None) blast

lemma findIndex_update_fresh:
  assumes "findIndex (\<lambda>t. t = a) xs = Some i" and "b \<notin> set xs"
  shows "findIndex (\<lambda>t. t = b) (xs[i := b]) = Some i"
proof -
  from findIndex_Some [OF assms(1)] have i: "i < length xs" by simp
  show ?thesis
  proof (rule findIndex_first)
    show "i < length (xs[i := b])" using i by simp
    show "(xs[i := b]) ! i = b" using i by simp
    show "\<forall>j<i. (xs[i := b]) ! j \<noteq> b"
    proof (intro allI impI)
      fix j assume j: "j < i"
      then have "(xs[i := b]) ! j = xs ! j" by simp
      moreover from j i have "xs ! j \<in> set xs" by simp
      ultimately show "(xs[i := b]) ! j \<noteq> b" using assms(2) by metis
    qed
  qed
qed

text \<open>A file without the old tag is not touched.\<close>

lemma edit_tag_in_file_frame:
  "oldTag \<notin> set (h_tags file) \<Longrightarrow> edit_tag_in_file oldTag newTag now file = file"
  by (simp add: edit_tag_in_file_def findIndex_eq_mem [symmetric])

text \<open>A file with the old tag has its first occurrence overwritten.\<close>

lemma edit_tag_in_file_hit:
  assumes "oldTag \<in> set (h_tags file)"
  shows "\<exists>i. findIndex (\<lambda>t. t = oldTag) (h_tags file) = Some i
             \<and> edit_tag_in_file oldTag newTag now file
               = file\<lparr>h_tags := (h_tags file)[i := newTag], h_updated_at := now\<rparr>"
proof -
  from assms have "findIndex (\<lambda>t. t = oldTag) (h_tags file) \<noteq> None"
    by (simp add: findIndex_eq_mem)
  then obtain i where "findIndex (\<lambda>t. t = oldTag) (h_tags file) = Some i" by auto
  then show ?thesis by (auto simp: edit_tag_in_file_def)
qed

lemma edit_tag_in_file_mem:
  "oldTag \<in> set (h_tags file) \<Longrightarrow> newTag \<in> set (h_tags (edit_tag_in_file oldTag newTag now file))"
proof -
  assume a: "oldTag \<in> set (h_tags file)"
  from edit_tag_in_file_hit [OF a, of newTag now] obtain i where
    i: "findIndex (\<lambda>t. t = oldTag) (h_tags file) = Some i"
    and e: "edit_tag_in_file oldTag newTag now file
               = file\<lparr>h_tags := (h_tags file)[i := newTag], h_updated_at := now\<rparr>" by blast
  from findIndex_Some [OF i] have "i < length (h_tags file)" by simp
  with e show ?thesis by (simp add: set_update_memI)
qed

lemma edit_tag_in_file_roundtrip:
  assumes fresh: "newTag \<notin> set (h_tags file)"
  shows "h_tags (edit_tag_in_file newTag oldTag t2 (edit_tag_in_file oldTag newTag t1 file))
         = h_tags file"
proof (cases "findIndex (\<lambda>t. t = oldTag) (h_tags file)")
  case None
  then have "edit_tag_in_file oldTag newTag t1 file = file" by (simp add: edit_tag_in_file_def)
  with fresh show ?thesis by (simp add: edit_tag_in_file_frame)
next
  case (Some i)
  from findIndex_Some [OF Some] have i: "i < length (h_tags file)" "h_tags file ! i = oldTag"
    by auto
  have e: "edit_tag_in_file oldTag newTag t1 file
             = file\<lparr>h_tags := (h_tags file)[i := newTag], h_updated_at := t1\<rparr>"
    using Some by (simp add: edit_tag_in_file_def)
  have "findIndex (\<lambda>t. t = newTag) ((h_tags file)[i := newTag]) = Some i"
    by (rule findIndex_update_fresh [OF Some fresh])
  with e have "h_tags (edit_tag_in_file newTag oldTag t2 (edit_tag_in_file oldTag newTag t1 file))
               = (h_tags file)[i := oldTag]"
    by (simp add: edit_tag_in_file_def)
  also have "\<dots> = h_tags file" using i by (simp add: list_update_same_conv)
  finally show ?thesis .
qed

lemma editTag_success:
  assumes "oldTag \<noteq> []" "newTag \<noteq> []" "oldTag \<noteq> newTag"
    and "\<exists>file \<in> set (html_files (db_data m)). oldTag \<in> set (h_tags file)"
  shows "editTag m oldTag newTag now True
         = (True, \<lparr>db_data = (updateStatistics ((db_data m)\<lparr>html_files :=
                      map (edit_tag_in_file oldTag newTag now) (html_files (db_data m))\<rparr>))
                      \<lparr>last_updated := now\<rparr>,
                   db_disk = Some ((updateStatistics ((db_data m)\<lparr>html_files :=
                      map (edit_tag_in_file oldTag newTag now) (html_files (db_data m))\<rparr>))
                      \<lparr>last_updated := now\<rparr>)\<rparr>)"
proof -
  from assms(4) have "filter (\<lambda>file. oldTag \<in> set (h_tags file)) (html_files (db_data m)) \<noteq> []"
    by (simp add: filter_empty_conv)
  with assms(1-3) show ?thesis
    by (simp add: editTag_def db_saveData_def Let_def)
qed

lemma editTag_files:
  assumes "oldTag \<noteq> []" "newTag \<noteq> []" "oldTag \<noteq> newTag"
    and "\<exists>file \<in> set (html_files (db_data m)). oldTag \<in> set (h_tags file)"
  shows "html_files (db_data (snd (editTag m oldTag newTag now True)))
         = map (edit_tag_in_file oldTag newTag now) (html_files (db_data m))"
  by (simp add: editTag_success [OF assms] updateStatistics_def Let_def)

lemma edit_tag_in_file_changes:
  assumes "oldTag \<in> set (h_tags file)" and "oldTag \<noteq> newTag"
  shows "h_tags (edit_tag_in_file oldTag newTag now file) \<noteq> h_tags file"
proof -
  from edit_tag_in_file_hit [OF assms(1), of newTag now] obtain i where
    i: "findIndex (\<lambda>t. t = oldTag) (h_tags file) = Some i"
    and e: "edit_tag_in_file oldTag newTag now file
               = file\<lparr>h_tags := (h_tags file)[i := newTag], h_updated_at := now\<rparr>" by blast
  from findIndex_Some [OF i] have l: "i < length (h_tags file)" and o: "h_tags file ! i = oldTag"
    by auto
  from l have "(h_tags file)[i := newTag] ! i = newTag" by simp
  with o assms(2) have "(h_tags file)[i := newTag] \<noteq> h_tags file" by metis
  with e show ?thesis by simp
qed

lemma editTag_roundtrip:
  assumes ne: "oldTag \<noteq> []" "newTag \<noteq> []" "oldTag \<noteq> newTag"
    and used: "\<exists>file \<in> set (html_files (db_data m)). oldTag \<in> set (h_tags file)"
    and fresh: "\<forall>file \<in> set (html_files (db_data m)). newTag \<notin> set (h_tags file)"
  shows "fst (editTag (snd (editTag m oldTag newTag t1 True)) newTag oldTag t2 True) = True"
    and "map h_tags (html_files (db_data
           (snd (editTag (snd (editTag m oldTag newTag t1 True)) newTag oldTag t2 True))))
         = map h_tags (html_files (db_data m))"
proof -
  let ?m1 = "snd (editTag m oldTag newTag t1 True)"
  have f1: "html_files (db_data ?m1) = map (edit_tag_in_file oldTag newTag t1) (html_files (db_data m))"
    by (rule editTag_files [OF ne used])
  from used obtain g where fl: "g \<in> set (html_files (db_data m))" "oldTag \<in> set (h_tags g)"
    by blast
  then have "newTag \<in> set (h_tags (edit_tag_in_file oldTag newTag t1 g))"
    by (simp add: edit_tag_in_file_mem)
  with fl(1) f1 have used1: "\<exists>file \<in> set (html_files (db_data ?m1)). newTag \<in> set (h_tags file)"
    by auto
  have ne1: "newTag \<noteq> oldTag" using ne(3) by simp
  show "fst (editTag ?m1 newTag oldTag t2 True) = True"
    by (simp add: editTag_success [OF ne(2) ne(1) ne1 used1])
  have "html_files (db_data (snd (editTag ?m1 newTag oldTag t2 True)))
          = map (edit_tag_in_file newTag oldTag t2) (html_files (db_data ?m1))"
    by (rule editTag_files [OF ne(2) ne(1) ne1 used1])
  with f1 have "map h_tags (html_files (db_data (snd (editTag ?m1 newTag oldTag t2 True))))
          = map (\<lambda>file. h_tags (edit_tag_in_file newTag oldTag t2
                                  (edit_tag_in_file oldTag newTag t1 file)))
              (html_files (db_data m))"
    by (simp add: comp_def)
  also have "\<dots> = map h_tags (html_files (db_data m))"
    using fresh by (intro map_cong refl) (simp add: edit_tag_in_file_roundtrip)
  finally show "map h_tags (html_files (db_data
           (snd (editTag ?m1 newTag oldTag t2 True))))
         = map h_tags (html_files (db_data m))" .
qed

section \<open>Renaming a model or a category by id\<close>

lemma findIndex_id_after_rename:
  assumes found: "findIndex (\<lambda>x. p_id x = ident) ps = Some i"
  shows "findIndex (\<lambda>x. p_id x = ident)
           (ps[i := (ps ! i)\<lparr>p_name := n, p_description := de, p_updateTime := u\<rparr>]) = Some i"
proof -
  from findIndex_Some [OF found] have i: "i < length ps" by simp
  have "findIndex (\<lambda>x. p_id x = ident)
           (ps[i := (ps ! i)\<lparr>p_name := n, p_description := de, p_updateTime := u\<rparr>])
        = findIndex (\<lambda>x. p_id x = ident) ps"
    using i by (intro findIndex_cong_nth) (auto simp: nth_list_update)
  with found show ?thesis by simp
qed

lemma put_model_found:
  assumes "b_name b \<noteq> []" and "findIndex (\<lambda>x. p_id x = ident) (preset_models d) = Some i"
  shows "put_model d ident b now True
         = (Inr ((preset_models d ! i)\<lparr>p_name := b_name b, p_description := b_description b,
                                        p_updateTime := Some now\<rparr>),
            d\<lparr>preset_models := (preset_models d)[i :=
                 (preset_models d ! i)\<lparr>p_name := b_name b, p_description := b_description b,
                                        p_updateTime := Some now\<rparr>]\<rparr>)"
  using assms by (simp add: put_model_def Let_def)

lemma put_category_found:
  assumes "b_name b \<noteq> []" and "findIndex (\<lambda>x. p_id x = ident) (categories d) = Some i"
  shows "put_category d ident b now True
         = (Inr ((categories d ! i)\<lparr>p_name := b_name b, p_description := b_description b,
                                     p_updateTime := Some now\<rparr>),
            d\<lparr>categories := (categories d)[i :=
                 (categories d ! i)\<lparr>p_name := b_name b, p_description := b_description b,
                                     p_updateTime := Some now\<rparr>]\<rparr>)"
  using assms by (simp add: put_category_def Let_def)

lemma put_model_rename:
  assumes n: "b_name b \<noteq> []" and f: "findIndex (\<lambda>x. p_id x = ident) (preset_models d) = Some i"
  shows "files (snd (put_model d ident b t1 True)) = files d"
    and "preset_tags (snd (put_model d ident b t1 True)) = preset_tags d"
    and "categories (snd (put_model d ident b t1 True)) = categories d"
    and "preset_models (snd (put_model d ident b t1 True))
         = (preset_models d)[i := (preset_models d ! i)
              \<lparr>p_name := b_name b, p_description := b_description b, p_updateTime := Some t1\<rparr>]"
    and "b_name b2 = p_name (preset_models d ! i) \<Longrightarrow> b_name b2 \<noteq> [] \<Longrightarrow>
         p_name (preset_models (snd (put_model (snd (put_model d ident b t1 True)) ident b2 t2 True)) ! i)
           = p_name (preset_models d ! i)
         \<and> files (snd (put_model (snd (put_model d ident b t1 True)) ident b2 t2 True)) = files d"
proof -
  note r = put_model_found [OF n f, of t1]
  show "files (snd (put_model d ident b t1 True)) = files d"
    and "preset_tags (snd (put_model d ident b t1 True)) = preset_tags d"
    and "categories (snd (put_model d ident b t1 True)) = categories d"
    and "preset_models (snd (put_model d ident b t1 True))
         = (preset_models d)[i := (preset_models d ! i)
              \<lparr>p_name := b_name b, p_description := b_description b, p_updateTime := Some t1\<rparr>]"
    by (simp_all add: r)
  assume b2: "b_name b2 = p_name (preset_models d ! i)" "b_name b2 \<noteq> []"
  from findIndex_Some [OF f] have i: "i < length (preset_models d)" by simp
  have f2: "findIndex (\<lambda>x. p_id x = ident) (preset_models (snd (put_model d ident b t1 True))) = Some i"
    using findIndex_id_after_rename [OF f] by (simp add: r)
  from put_model_found [OF b2(2) f2, of t2] i b2(1)
  show "p_name (preset_models (snd (put_model (snd (put_model d ident b t1 True)) ident b2 t2 True)) ! i)
           = p_name (preset_models d ! i)
         \<and> files (snd (put_model (snd (put_model d ident b t1 True)) ident b2 t2 True)) = files d"
    by (simp add: r)
qed

lemma put_category_rename:
  assumes n: "b_name b \<noteq> []" and f: "findIndex (\<lambda>x. p_id x = ident) (categories d) = Some i"
  shows "files (snd (put_category d ident b t1 True)) = files d"
    and "preset_tags (snd (put_category d ident b t1 True)) = preset_tags d"
    and "preset_models (snd (put_category d ident b t1 True)) = preset_models d"
    and "categories (snd (put_category d ident b t1 True))
         = (categories d)[i := (categories d ! i)
              \<lparr>p_name := b_name b, p_description := b_description b, p_updateTime := Some t1\<rparr>]"
    and "b_name b2 = p_name (categories d ! i) \<Longrightarrow> b_name b2 \<noteq> [] \<Longrightarrow>
         p_name (categories (snd (put_category (snd (put_category d ident b t1 True)) ident b2 t2 True)) ! i)
           = p_name (categories d ! i)
         \<and> files (snd (put_category (snd (put_category d ident b t1 True)) ident b2 t2 True)) = files d"
proof -
  note r = put_category_found [OF n f, of t1]
  show "files (snd (put_category d ident b t1 True)) = files d"
    and "preset_tags (snd (put_category d ident b t1 True)) = preset_tags d"
    and "preset_models (snd (put_category d ident b t1 True)) = preset_models d"
    and "categories (snd (put_category d ident b t1 True))
         = (categories d)[i := (categories d ! i)
              \<lparr>p_name := b_name b, p_description := b_description b, p_updateTime := Some t1\<rparr>]"
    by (simp_all add: r)
  assume b2: "b_name b2 = p_name (categories d ! i)" "b_name b2 \<noteq> []"
  from findIndex_Some [OF f] have i: "i < length (categories d)" by simp
  have f2: "findIndex (\<lambda>x. p_id x = ident) (categories (snd (put_category d ident b t1 True))) = Some i"
    using findIndex_id_after_rename [OF f] by (simp add: r)
  from put_category_found [OF b2(2) f2, of t2] i b2(1)
  show "p_name (categories (snd (put_category (snd (put_category d ident b t1 True)) ident b2 t2 True)) ! i)
           = p_name (categories d ! i)
         \<and> files (snd (put_category (snd (put_category d ident b t1 True)) ident b2 t2 True)) = files d"
    by (simp add: r)
qed

section \<open>The keyword test against the wildcard match of the specification\<close>

lemma replace_all_Cons:
  "replace_all c r (x # xs) = (if x = c then r else [x]) @ replace_all c r xs"
  by (simp add: replace_all_def)

lemma replace_all_Nil: "replace_all c r [] = []"
  by (simp add: replace_all_def)

lemma wildcard_source_concat: "wildcard_source k = concat (map source_of_char k)"
proof -
  have "replace_all (CHR ''?'') ''.'' (replace_all (CHR ''*'') ''.*'' k)
          = concat (map source_of_char k)"
    by (induction k) (simp_all add: replace_all_Cons replace_all_Nil source_of_char_def)
  then show ?thesis by (simp add: wildcard_source_def)
qed

lemma syntax_chars [simp]: "is_syntax_char (CHR ''.'')" "is_syntax_char (CHR ''*'')"
  "is_syntax_char (CHR ''?'')"
  by (simp_all add: is_syntax_char_def)

lemma parse_regex_Lit:
  "\<not> is_syntax_char c \<Longrightarrow> parse_regex (c # s) = map_option ((#) (Lit c)) (parse_regex s)"
  by (cases s) auto

lemma parse_regex_Dot:
  "s = [] \<or> hd s \<noteq> CHR ''*'' \<Longrightarrow>
   parse_regex (CHR ''.'' # s) = map_option ((#) Dot) (parse_regex s)"
  by (cases s) auto

lemma parse_regex_DotStar:
  "parse_regex (CHR ''.'' # CHR ''*'' # s) = map_option ((#) DotStar) (parse_regex s)"
  by simp

lemma source_head:
  "concat (map source_of_char k) = [] \<or> hd (concat (map source_of_char k)) \<noteq> CHR ''*''"
  by (cases k) (auto simp: source_of_char_def)

lemma parse_regex_source:
  "plain_keyword k \<Longrightarrow> parse_regex (concat (map source_of_char k)) = Some (map item_of_char k)"
proof (induction k)
  case Nil
  then show ?case by simp
next
  case (Cons c k)
  then have ih: "parse_regex (concat (map source_of_char k)) = Some (map item_of_char k)"
    and c: "c = CHR ''*'' \<or> c = CHR ''?'' \<or> \<not> is_syntax_char c"
    by (simp_all add: plain_keyword_def)
  let ?s = "concat (map source_of_char k)"
  show ?case
  proof (cases "c = CHR ''*''")
    case True
    then have "concat (map source_of_char (c # k)) = CHR ''.'' # CHR ''*'' # ?s"
      and "map item_of_char (c # k) = DotStar # map item_of_char k"
      by (simp_all add: source_of_char_def item_of_char_def)
    then show ?thesis
      using ih by (simp only: parse_regex_DotStar option.map)
  next
    case star: False
    show ?thesis
    proof (cases "c = CHR ''?''")
      case True
      then have "concat (map source_of_char (c # k)) = CHR ''.'' # ?s"
        and "map item_of_char (c # k) = Dot # map item_of_char k"
        by (simp_all add: source_of_char_def item_of_char_def)
      then show ?thesis
        using ih by (simp only: parse_regex_Dot [OF source_head [of k]] option.map)
    next
      case False
      with star c have n: "\<not> is_syntax_char c" by simp
      from star False have "concat (map source_of_char (c # k)) = c # ?s"
        and "map item_of_char (c # k) = Lit c # map item_of_char k"
        by (simp_all add: source_of_char_def item_of_char_def)
      then show ?thesis
        using ih by (simp only: parse_regex_Lit [OF n] option.map)
    qed
  qed
qed

lemma match_here_spec:
  "one_line s \<Longrightarrow> match_here (map item_of_char k) s = spec_match_here (spec_pattern k) s"
proof (induction "spec_pattern k" s arbitrary: k rule: spec_match_here.induct)
  case (1 s)
  then show ?case by (simp add: spec_pattern_def)
next
  case (2 c p)
  then show ?case by (cases k) (auto simp: spec_pattern_def item_of_char_def split: if_splits)
next
  case (3 c p x xs)
  from "3.hyps"(2) obtain a k' where k: "k = a # k'" "spec_pattern k' = p"
    "a \<noteq> CHR ''*''" "a \<noteq> CHR ''?''" "a = c"
    by (cases k) (auto simp: spec_pattern_def split: if_splits)
  from "3.prems" have "one_line xs" by (simp add: one_line_def)
  from "3.hyps"(1) [OF k(2) [symmetric] this] k "3.hyps"(2) show ?case
    by (simp add: item_of_char_def spec_pattern_def)
next
  case (4 p)
  then show ?case by (cases k) (auto simp: spec_pattern_def item_of_char_def split: if_splits)
next
  case (5 p x xs)
  from "5.hyps"(2) obtain k' where k: "k = CHR ''?'' # k'" "spec_pattern k' = p"
    by (cases k) (auto simp: spec_pattern_def split: if_splits)
  from "5.prems" have o: "one_line xs" "\<not> is_line_terminator x" by (simp_all add: one_line_def)
  from "5.hyps"(1) [OF k(2) [symmetric] o(1)] k o(2) show ?case
    by (simp add: item_of_char_def spec_pattern_def)
next
  case (6 p)
  from "6.hyps"(2) obtain k' where k: "k = CHR ''*'' # k'" "spec_pattern k' = p"
    by (cases k) (auto simp: spec_pattern_def split: if_splits)
  from "6.hyps"(1) [OF k(2) [symmetric] "6.prems"] k show ?case
    by (simp add: item_of_char_def spec_pattern_def)
next
  case (7 p x xs)
  from "7.hyps"(3) obtain k' where k: "k = CHR ''*'' # k'" "spec_pattern k' = p"
    by (cases k) (auto simp: spec_pattern_def split: if_splits)
  from "7.prems" have o: "one_line xs" "\<not> is_line_terminator x" by (simp_all add: one_line_def)
  have a: "match_here (map item_of_char k') (x # xs) = spec_match_here (spec_pattern k') (x # xs)"
    by (rule "7.hyps"(1) [OF k(2) [symmetric] "7.prems"])
  have b: "match_here (map item_of_char k) xs = spec_match_here (spec_pattern k) xs"
    by (rule "7.hyps"(2) [OF "7.hyps"(3) o(1)])
  from a b k o(2) show ?case
    by (simp add: item_of_char_def spec_pattern_def)
qed

lemma regex_test_spec:
  "one_line s \<Longrightarrow> regex_test (map item_of_char k) s = spec_search (spec_pattern k) s"
proof (induction s)
  case Nil
  then show ?case by (simp add: match_here_spec)
next
  case (Cons x xs)
  then have "one_line xs" by (simp add: one_line_def)
  with Cons show ?case by (simp add: match_here_spec)
qed

lemma keyword_test_refines_spec:
  assumes "plain_keyword k" and "one_line text"
  shows "keyword_test k text = Some (spec_search (spec_pattern k) text)"
  using assms
  by (simp add: keyword_test_def wildcard_source_concat parse_regex_source regex_test_spec)

text \<open>With plain keywords and texts without line breaks, the file list with a text
  filter is the list of the active files that every keyword matches.\<close>

lemma every_keyword_all:
  "\<forall>k \<in> set ks. keyword_test k t = Some (Q k) \<Longrightarrow>
   every_keyword ks t = Some (\<forall>k \<in> set ks. Q k)"
  by (induction ks) (auto split: bool.splits)

lemma filter_opt_filter:
  "\<forall>x \<in> set xs. P x = Some (Q x) \<Longrightarrow> filter_opt P xs = Some (filter Q xs)"
  by (induction xs) auto

lemma getFiles_text_filter:
  assumes s: "trim s \<noteq> []"
    and plain: "list_all plain_keyword (keywords_of (trim s))"
    and lines: "list_all (\<lambda>f. one_line (searchText f)) (files d)"
  shows "getFiles d (ex_search s)
         = Some (filter (\<lambda>f. f_status f \<noteq> ''deleted''
                          \<and> (\<forall>k \<in> set (keywords_of (trim s)).
                                spec_search (spec_pattern k) (searchText f)))
                   (files d))"
proof -
  let ?ks = "keywords_of (trim s)"
  from s have ne: "s \<noteq> []" by (auto simp: trim_def)
  have "every_keyword ?ks (searchText f)
          = Some (\<forall>k \<in> set ?ks. spec_search (spec_pattern k) (searchText f))"
    if "f \<in> set (files d)" for f
  proof (rule every_keyword_all, rule ballI)
    fix k assume "k \<in> set ?ks"
    with plain have "plain_keyword k" by (simp add: list_all_iff)
    moreover from lines that have "one_line (searchText f)" by (simp add: list_all_iff)
    ultimately show "keyword_test k (searchText f)
                       = Some (spec_search (spec_pattern k) (searchText f))"
      by (rule keyword_test_refines_spec)
  qed
  then have "filter_opt (\<lambda>f. every_keyword ?ks (searchText f))
               (filter (\<lambda>f. f_status f \<noteq> ''deleted'') (files d))
             = Some (filter (\<lambda>f. \<forall>k \<in> set ?ks. spec_search (spec_pattern k) (searchText f))
                       (filter (\<lambda>f. f_status f \<noteq> ''deleted'') (files d)))"
    by (intro filter_opt_filter) simp
  with s ne show ?thesis
    by (simp add: getFiles_def ex_search_def Let_def)
qed

section \<open>What the handlers leave alone\<close>

lemma updateStats_keeps_collections:
  "files (updateStats d now) = files d"
  "preset_tags (updateStats d now) = preset_tags d"
  "preset_models (updateStats d now) = preset_models d"
  "categories (updateStats d now) = categories d"
  by (simp_all add: updateStats_def)

text \<open>An upload, whatever tags, model and category it names, leaves every preset as it
  is, its \<open>usageCount\<close> included.\<close>

lemma post_upload_keeps_presets:
  "preset_tags (snd (post_upload d req fileId now ok)) = preset_tags d"
  "preset_models (snd (post_upload d req fileId now ok)) = preset_models d"
  "categories (snd (post_upload d req fileId now ok)) = categories d"
  by (simp_all add: post_upload_def Let_def updateStats_def split: option.splits)

lemma delete_file_keeps_presets:
  "preset_tags (snd (delete_file d ident password now ok)) = preset_tags d"
  "preset_models (snd (delete_file d ident password now ok)) = preset_models d"
  "categories (snd (delete_file d ident password now ok)) = categories d"
  by (simp_all add: delete_file_def Let_def updateStats_def split: option.splits)

text \<open>\<^verbatim>\<open>DataManager.deleteTag\<close> removes a tag that exists, whatever the files are.\<close>

lemma deleteTag_ignores_files:
  assumes "findIndex (\<lambda>tag. p_id tag = tagId) (preset_tags (dm_data m)) = Some i"
  shows "fst (deleteTag m tagId now True) = Inr (preset_tags (dm_data m) ! i)"
    and "preset_tags (dm_data (snd (deleteTag m tagId now True)))
           = splice1 i (preset_tags (dm_data m))"
    and "files (dm_data (snd (deleteTag m tagId now True))) = files (dm_data m)"
  using assms by (simp_all add: deleteTag_def saveData_def Let_def updateStats_def)

text \<open>The sibling paths refuse and change nothing when a file, of any status, uses the
  entity.\<close>

lemma components_deleteTag_guard:
  assumes "\<exists>f \<in> set (files (dm_data m)). tagId \<in> set (f_tags f)"
  shows "components_deleteTag m tagId now ok
         = (Inl (InUse (length (filter (\<lambda>f. tagId \<in> set (f_tags f)) (files (dm_data m))))), m)"
proof -
  from assms have "filter (\<lambda>f. tagId \<in> set (f_tags f)) (files (dm_data m)) \<noteq> []"
    by (simp add: filter_empty_conv)
  then show ?thesis by (simp add: components_deleteTag_def Let_def)
qed

lemma components_deleteModel_guard:
  assumes "\<exists>f \<in> set (files (dm_data m)). f_model f = modelId"
  shows "components_deleteModel m modelId now ok
         = (Inl (InUse (length (filter (\<lambda>f. f_model f = modelId) (files (dm_data m))))), m)"
proof -
  from assms have "filter (\<lambda>f. f_model f = modelId) (files (dm_data m)) \<noteq> []"
    by (simp add: filter_empty_conv)
  then show ?thesis by (simp add: components_deleteModel_def Let_def)
qed

lemma deleteCategory_guard:
  assumes "findIndex (\<lambda>c. p_id c = ident) (categories (dm_data m)) = Some i"
    and "\<exists>f \<in> set (files (dm_data m)). f_category f = p_name (categories (dm_data m) ! i)"
  shows "deleteCategory m ident now ok
         = (Inl (InUse (length (filter (\<lambda>f. f_category f = p_name (categories (dm_data m) ! i))
                                  (files (dm_data m))))), m)"
proof -
  from assms(2)
  have "filter (\<lambda>f. f_category f = p_name (categories (dm_data m) ! i)) (files (dm_data m)) \<noteq> []"
    by (simp add: filter_empty_conv)
  with assms(1) show ?thesis by (simp add: deleteCategory_def Let_def)
qed

lemma delete_category_guard:
  assumes "findIndex (\<lambda>c. p_id c = ident) (categories d) = Some i"
    and "\<exists>f \<in> set (files d). f_category f = p_name (categories d ! i)"
  shows "delete_category d ident now ok
         = (Inl (InUse (length (filter (\<lambda>f. f_category f = p_name (categories d ! i)) (files d)))), d)"
proof -
  from assms(2)
  have "filter (\<lambda>f. f_category f = p_name (categories d ! i)) (files d) \<noteq> []"
    by (simp add: filter_empty_conv)
  with assms(1) show ?thesis by (simp add: delete_category_def Let_def)
qed

section \<open>Creating under a name that is taken\<close>

text \<open>The sibling create path refuses a name that is already there and changes nothing.\<close>

lemma preset_manager_addTag_refuses_duplicate:
  "trim tag \<in> set tags \<Longrightarrow> preset_manager_addTag tags tag = (False, tags)"
  by (simp add: preset_manager_addTag_def Let_def)

lemma preset_manager_addTag_keeps_distinct:
  "distinct tags \<Longrightarrow> distinct (snd (preset_manager_addTag tags tag))"
  by (simp add: preset_manager_addTag_def Let_def)

text \<open>The Express create handlers succeed for every non-empty name, whatever names the
  document holds, and append the new entry.\<close>

lemma post_handlers_compare_no_names:
  assumes "b_name b \<noteq> []"
  shows "case post_tags d b now True of
            (Inr e, d') \<Rightarrow> p_name e = b_name b \<and> preset_tags d' = preset_tags d @ [e]
          | (Inl _, _) \<Rightarrow> False"
    and "case post_models d b now True of
            (Inr e, d') \<Rightarrow> p_name e = b_name b \<and> preset_models d' = preset_models d @ [e]
          | (Inl _, _) \<Rightarrow> False"
    and "case post_categories d b now True of
            (Inr e, d') \<Rightarrow> p_name e = b_name b \<and> categories d' = categories d @ [e]
          | (Inl _, _) \<Rightarrow> False"
  using assms
  by (simp_all add: post_tags_def post_models_def post_categories_def Let_def updateStats_def)

lemma addTag_compares_no_names:
  assumes "b_name b \<noteq> []"
  shows "case addTag m b now True of
            (Inr e, m') \<Rightarrow> p_name e = b_name b
               \<and> preset_tags (dm_data m') = preset_tags (dm_data m) @ [e]
          | (Inl _, _) \<Rightarrow> False"
  using assms by (simp add: addTag_def saveData_def Let_def updateStats_def)

section \<open>A write that fails\<close>

lemma upsert_mem:
  "r \<in> set (case findIndex P fs of Some i \<Rightarrow> fs[i := r] | None \<Rightarrow> fs @ [r])"
proof (cases "findIndex P fs")
  case None
  then show ?thesis by simp
next
  case (Some i)
  from findIndex_Some [OF Some] have "i < length fs" by simp
  with Some show ?thesis by (simp add: set_update_memI)
qed

text \<open>After a failed write the record of a valid \<^verbatim>\<open>addHTMLFile\<close> is in memory all the
  same, and nothing has reached the disk.\<close>

lemma addHTMLFile_failed_write_keeps_record:
  assumes "i_original_name fi \<noteq> []" "i_scene fi \<noteq> []" "i_prompt fi \<noteq> []" "i_models fi \<noteq> None"
  shows "fst (addHTMLFile m fi h now False) = False"
    and "db_disk (snd (addHTMLFile m fi h now False)) = db_disk m"
    and "\<exists>f \<in> set (html_files (db_data (snd (addHTMLFile m fi h now False)))).
           h_id f = (if i_id fi = [] then h else i_id fi) \<and> h_updated_at f = now
           \<and> h_original_name f = i_original_name fi"
proof -
  show "fst (addHTMLFile m fi h now False) = False"
    using assms by (simp add: addHTMLFile_def db_saveData_def Let_def)
  show "db_disk (snd (addHTMLFile m fi h now False)) = db_disk m"
    using assms by (simp add: addHTMLFile_def db_saveData_def Let_def)
  define ident where "ident = (if i_id fi = [] then h else i_id fi)"
  define r where "r =
    \<lparr>h_id = ident,
     h_original_name = i_original_name fi,
     h_scene = i_scene fi,
     h_prompt = i_prompt fi,
     h_models = (case i_models fi of None \<Rightarrow> [] | Some ms \<Rightarrow> ms),
     h_tags = i_tags fi,
     h_category = (if i_category fi = [] then uncategorized else i_category fi),
     h_description = i_description fi,
     h_file_size = i_file_size fi,
     h_created_at = (case i_created_at fi of None \<Rightarrow> now | Some t \<Rightarrow> t),
     h_updated_at = now,
     h_access_count = i_access_count fi,
     h_rating = i_rating fi,
     h_compatibility = (if i_compatibility fi = [] then ''{}'' else i_compatibility fi)\<rparr>"
  have "addHTMLFile m fi h now False
        = db_saveData (m\<lparr>db_data := updateStatistics ((db_data m)\<lparr>html_files :=
            (case findIndex (\<lambda>f. h_id f = ident) (html_files (db_data m)) of
               Some i \<Rightarrow> (html_files (db_data m))[i := r]
             | None \<Rightarrow> html_files (db_data m) @ [r])\<rparr>)\<rparr>) now False"
  proof -
    from assms have g: "\<not> (i_original_name fi = [] \<or> i_scene fi = [] \<or> i_prompt fi = []
                           \<or> i_models fi = None)" by blast
    show ?thesis
      unfolding addHTMLFile_def Let_def ident_def r_def by (simp only: g if_False)
  qed
  then have "html_files (db_data (snd (addHTMLFile m fi h now False)))
        = (case findIndex (\<lambda>f. h_id f = ident) (html_files (db_data m)) of
               Some i \<Rightarrow> (html_files (db_data m))[i := r]
             | None \<Rightarrow> html_files (db_data m) @ [r])"
    by (simp add: db_saveData_def Let_def updateStatistics_def)
  then have "r \<in> set (html_files (db_data (snd (addHTMLFile m fi h now False))))"
    by (simp only: upsert_mem)
  moreover have "h_id r = ident" "h_updated_at r = now" "h_original_name r = i_original_name fi"
    by (simp_all add: r_def)
  ultimately show "\<exists>f \<in> set (html_files (db_data (snd (addHTMLFile m fi h now False)))).
           h_id f = (if i_id fi = [] then h else i_id fi) \<and> h_updated_at f = now
           \<and> h_original_name f = i_original_name fi"
    unfolding ident_def by blast
qed

text \<open>After a failed \<^verbatim>\<open>setItem\<close> the tag of \<^verbatim>\<open>DataManager.addTag\<close> is in memory all the
  same, and the stored document is the old one.\<close>

lemma addTag_failed_store_keeps_tag:
  assumes "b_name b \<noteq> []"
  shows "fst (addTag m b now False) = Inl SaveFailed"
    and "dm_storage (snd (addTag m b now False)) = dm_storage m"
    and "map p_name (preset_tags (dm_data (snd (addTag m b now False))))
           = map p_name (preset_tags (dm_data m)) @ [b_name b]"
  using assms by (simp_all add: addTag_def saveData_def Let_def updateStats_def)

text \<open>\<^verbatim>\<open>GET /api/files/:id\<close> answers with the file whether or not the write worked.\<close>

lemma get_file_ignores_failed_save:
  "fst (get_file d ident now False) = fst (get_file d ident now True)"
  "snd (get_file d ident now False) = d"
  by (simp_all add: get_file_def Let_def split: option.splits)

section \<open>Claims\<close>

subsection \<open>C1\<close>

text \<open>
  C1, as the code has it. Renaming a model or a category by id (the two PUT handlers)
  rewrites no file and no other collection; of the entry it sets the name, the
  description and the update time, and renaming back restores the name. Renaming a tag
  (\<^verbatim>\<open>editTag\<close>) works on names and does rewrite the files: every file whose tag list
  holds the old name gets the first occurrence overwritten with the new name and a new
  update time, every other file stays as it is. Renaming A to B and then B to A gives
  every file its tag list back when no file carried B before the first renaming.
\<close>

theorem rename_effects:
  "(b_name b \<noteq> [] \<and> findIndex (\<lambda>x. p_id x = ident) (preset_models d) = Some i \<longrightarrow>
      files (snd (put_model d ident b t1 True)) = files d
      \<and> preset_tags (snd (put_model d ident b t1 True)) = preset_tags d
      \<and> categories (snd (put_model d ident b t1 True)) = categories d
      \<and> preset_models (snd (put_model d ident b t1 True))
          = (preset_models d)[i := (preset_models d ! i)
               \<lparr>p_name := b_name b, p_description := b_description b, p_updateTime := Some t1\<rparr>]
      \<and> (b_name b2 = p_name (preset_models d ! i) \<and> b_name b2 \<noteq> [] \<longrightarrow>
           p_name (preset_models
                     (snd (put_model (snd (put_model d ident b t1 True)) ident b2 t2 True)) ! i)
             = p_name (preset_models d ! i)
           \<and> files (snd (put_model (snd (put_model d ident b t1 True)) ident b2 t2 True))
             = files d))
   \<and> (b_name b \<noteq> [] \<and> findIndex (\<lambda>x. p_id x = ident') (categories d) = Some i' \<longrightarrow>
      files (snd (put_category d ident' b t1 True)) = files d
      \<and> preset_tags (snd (put_category d ident' b t1 True)) = preset_tags d
      \<and> preset_models (snd (put_category d ident' b t1 True)) = preset_models d
      \<and> categories (snd (put_category d ident' b t1 True))
          = (categories d)[i' := (categories d ! i')
               \<lparr>p_name := b_name b, p_description := b_description b, p_updateTime := Some t1\<rparr>]
      \<and> (b_name b2 = p_name (categories d ! i') \<and> b_name b2 \<noteq> [] \<longrightarrow>
           p_name (categories
                     (snd (put_category (snd (put_category d ident' b t1 True)) ident' b2 t2 True)) ! i')
             = p_name (categories d ! i')
           \<and> files (snd (put_category (snd (put_category d ident' b t1 True)) ident' b2 t2 True))
             = files d))
   \<and> (oldTag \<noteq> [] \<and> newTag \<noteq> [] \<and> oldTag \<noteq> newTag
       \<and> (\<exists>file \<in> set (html_files (db_data m)). oldTag \<in> set (h_tags file)) \<longrightarrow>
      fst (editTag m oldTag newTag t1 True) = True
      \<and> html_files (db_data (snd (editTag m oldTag newTag t1 True)))
          = map (edit_tag_in_file oldTag newTag t1) (html_files (db_data m))
      \<and> (\<forall>file \<in> set (html_files (db_data m)).
            (oldTag \<notin> set (h_tags file) \<longrightarrow> edit_tag_in_file oldTag newTag t1 file = file)
          \<and> (oldTag \<in> set (h_tags file) \<longrightarrow>
               h_tags (edit_tag_in_file oldTag newTag t1 file) \<noteq> h_tags file
               \<and> (\<exists>k. findIndex (\<lambda>t. t = oldTag) (h_tags file) = Some k
                     \<and> edit_tag_in_file oldTag newTag t1 file
                       = file\<lparr>h_tags := (h_tags file)[k := newTag], h_updated_at := t1\<rparr>)))
      \<and> ((\<forall>file \<in> set (html_files (db_data m)). newTag \<notin> set (h_tags file)) \<longrightarrow>
            fst (editTag (snd (editTag m oldTag newTag t1 True)) newTag oldTag t2 True) = True
          \<and> map h_tags (html_files (db_data
               (snd (editTag (snd (editTag m oldTag newTag t1 True)) newTag oldTag t2 True))))
            = map h_tags (html_files (db_data m))))"
proof (intro conjI impI)
  assume a: "b_name b \<noteq> [] \<and> findIndex (\<lambda>x. p_id x = ident) (preset_models d) = Some i"
  then have n: "b_name b \<noteq> []" and f: "findIndex (\<lambda>x. p_id x = ident) (preset_models d) = Some i"
    by simp_all
  show "files (snd (put_model d ident b t1 True)) = files d"
    by (rule put_model_rename(1) [OF n f])
  show "preset_tags (snd (put_model d ident b t1 True)) = preset_tags d"
    by (rule put_model_rename(2) [OF n f])
  show "categories (snd (put_model d ident b t1 True)) = categories d"
    by (rule put_model_rename(3) [OF n f])
  show "preset_models (snd (put_model d ident b t1 True))
          = (preset_models d)[i := (preset_models d ! i)
               \<lparr>p_name := b_name b, p_description := b_description b, p_updateTime := Some t1\<rparr>]"
    by (rule put_model_rename(4) [OF n f])
  assume b2: "b_name b2 = p_name (preset_models d ! i) \<and> b_name b2 \<noteq> []"
  from put_model_rename(5) [OF n f, of b2 t1 t2] b2
  show "p_name (preset_models
                     (snd (put_model (snd (put_model d ident b t1 True)) ident b2 t2 True)) ! i)
             = p_name (preset_models d ! i)"
    and "files (snd (put_model (snd (put_model d ident b t1 True)) ident b2 t2 True)) = files d"
    by blast+
next
  assume a: "b_name b \<noteq> [] \<and> findIndex (\<lambda>x. p_id x = ident') (categories d) = Some i'"
  then have n: "b_name b \<noteq> []" and f: "findIndex (\<lambda>x. p_id x = ident') (categories d) = Some i'"
    by simp_all
  show "files (snd (put_category d ident' b t1 True)) = files d"
    by (rule put_category_rename(1) [OF n f])
  show "preset_tags (snd (put_category d ident' b t1 True)) = preset_tags d"
    by (rule put_category_rename(2) [OF n f])
  show "preset_models (snd (put_category d ident' b t1 True)) = preset_models d"
    by (rule put_category_rename(3) [OF n f])
  show "categories (snd (put_category d ident' b t1 True))
          = (categories d)[i' := (categories d ! i')
               \<lparr>p_name := b_name b, p_description := b_description b, p_updateTime := Some t1\<rparr>]"
    by (rule put_category_rename(4) [OF n f])
  assume b2: "b_name b2 = p_name (categories d ! i') \<and> b_name b2 \<noteq> []"
  from put_category_rename(5) [OF n f, of b2 t1 t2] b2
  show "p_name (categories
                     (snd (put_category (snd (put_category d ident' b t1 True)) ident' b2 t2 True)) ! i')
             = p_name (categories d ! i')"
    and "files (snd (put_category (snd (put_category d ident' b t1 True)) ident' b2 t2 True))
             = files d"
    by blast+
next
  assume a: "oldTag \<noteq> [] \<and> newTag \<noteq> [] \<and> oldTag \<noteq> newTag
       \<and> (\<exists>file \<in> set (html_files (db_data m)). oldTag \<in> set (h_tags file))"
  then have ne: "oldTag \<noteq> []" "newTag \<noteq> []" "oldTag \<noteq> newTag"
    and used: "\<exists>file \<in> set (html_files (db_data m)). oldTag \<in> set (h_tags file)"
    by simp_all
  show "fst (editTag m oldTag newTag t1 True) = True"
    by (simp add: editTag_success [OF ne used])
  show "html_files (db_data (snd (editTag m oldTag newTag t1 True)))
          = map (edit_tag_in_file oldTag newTag t1) (html_files (db_data m))"
    by (rule editTag_files [OF ne used])
  show "\<forall>file \<in> set (html_files (db_data m)).
            (oldTag \<notin> set (h_tags file) \<longrightarrow> edit_tag_in_file oldTag newTag t1 file = file)
          \<and> (oldTag \<in> set (h_tags file) \<longrightarrow>
               h_tags (edit_tag_in_file oldTag newTag t1 file) \<noteq> h_tags file
               \<and> (\<exists>k. findIndex (\<lambda>t. t = oldTag) (h_tags file) = Some k
                     \<and> edit_tag_in_file oldTag newTag t1 file
                       = file\<lparr>h_tags := (h_tags file)[k := newTag], h_updated_at := t1\<rparr>))"
    using ne(3) edit_tag_in_file_frame edit_tag_in_file_changes edit_tag_in_file_hit by blast
  assume fresh: "\<forall>file \<in> set (html_files (db_data m)). newTag \<notin> set (h_tags file)"
  show "fst (editTag (snd (editTag m oldTag newTag t1 True)) newTag oldTag t2 True) = True"
    by (rule editTag_roundtrip(1) [OF ne used fresh])
  show "map h_tags (html_files (db_data
               (snd (editTag (snd (editTag m oldTag newTag t1 True)) newTag oldTag t2 True))))
            = map h_tags (html_files (db_data m))"
    by (rule editTag_roundtrip(2) [OF ne used fresh])
qed

theorem rename_effects_witness:
  "b_name (ex_body ''B'') \<noteq> []
   \<and> findIndex (\<lambda>x. p_id x = ''model_1'') (preset_models ex_presets) = Some 0
   \<and> findIndex (\<lambda>x. p_id x = ''category_1'') (categories ex_presets) = Some 0
   \<and> b_name (ex_body ''A'') = p_name (preset_models ex_presets ! 0) \<and> b_name (ex_body ''A'') \<noteq> []
   \<and> b_name (ex_body ''A'') = p_name (categories ex_presets ! 0)
   \<and> (\<exists>file \<in> set (html_files (db_data (ex_db_with [ex_html ''h1'' [''A'', ''C''], ex_html ''h2'' [''C'']]))).
         ''A'' \<in> set (h_tags file))
   \<and> list_all (\<lambda>file. ''B'' \<notin> set (h_tags file))
        (html_files (db_data (ex_db_with [ex_html ''h1'' [''A'', ''C''], ex_html ''h2'' [''C'']])))
   \<and> files (snd (put_model ex_presets ''model_1'' (ex_body ''B'') 5 True)) = files ex_presets
   \<and> p_name (preset_models (snd (put_model (snd (put_model ex_presets ''model_1'' (ex_body ''B'') 5 True))
                                     ''model_1'' (ex_body ''A'') 6 True)) ! 0)
       = p_name (preset_models ex_presets ! 0)
   \<and> files (snd (put_category ex_presets ''category_1'' (ex_body ''B'') 5 True)) = files ex_presets
   \<and> p_name (categories (snd (put_category (snd (put_category ex_presets ''category_1'' (ex_body ''B'') 5 True))
                                     ''category_1'' (ex_body ''A'') 6 True)) ! 0)
       = p_name (categories ex_presets ! 0)
   \<and> fst (editTag (ex_db_with [ex_html ''h1'' [''A'', ''C''], ex_html ''h2'' [''C'']]) ''A'' ''B'' 5 True) = True
   \<and> map h_tags (html_files (db_data
         (snd (editTag (snd (editTag (ex_db_with [ex_html ''h1'' [''A'', ''C''], ex_html ''h2'' [''C'']])
                                ''A'' ''B'' 5 True)) ''B'' ''A'' 6 True))))
       = map h_tags (html_files (db_data (ex_db_with [ex_html ''h1'' [''A'', ''C''], ex_html ''h2'' [''C'']])))
   \<and> map h_tags (html_files (db_data
         (snd (editTag (ex_db_with [ex_html ''h1'' [''A'', ''C''], ex_html ''h2'' [''C'']]) ''A'' ''B'' 5 True))))
       = [[''B'', ''C''], [''C'']]"
proof -
  let ?m = "ex_db_with [ex_html ''h1'' [''A'', ''C''], ex_html ''h2'' [''C'']]"
  have n: "b_name (ex_body ''B'') \<noteq> []" by (simp add: ex_body_def)
  have fm: "findIndex (\<lambda>x. p_id x = ''model_1'') (preset_models ex_presets) = Some 0"
    by code_simp
  have fc: "findIndex (\<lambda>x. p_id x = ''category_1'') (categories ex_presets) = Some 0"
    by code_simp
  have bm: "b_name (ex_body ''A'') = p_name (preset_models ex_presets ! 0)" by code_simp
  have bn: "b_name (ex_body ''A'') \<noteq> []" by (simp add: ex_body_def)
  have bc: "b_name (ex_body ''A'') = p_name (categories ex_presets ! 0)" by code_simp
  have hf: "html_files (db_data ?m) = [ex_html ''h1'' [''A'', ''C''], ex_html ''h2'' [''C'']]"
    by (simp add: ex_db_with_def updateStatistics_def Let_def)
  have used: "\<exists>file \<in> set (html_files (db_data ?m)). ''A'' \<in> set (h_tags file)"
    unfolding hf by (simp add: ex_html_def)
  have fresh: "\<forall>file \<in> set (html_files (db_data ?m)). ''B'' \<notin> set (h_tags file)"
    unfolding hf by (simp add: ex_html_def)
  have ne: "''A'' \<noteq> []" "''B'' \<noteq> []" "''A'' \<noteq> ''B''" by simp_all
  have v: "map h_tags (html_files (db_data (snd (editTag ?m ''A'' ''B'' 5 True))))
             = [[''B'', ''C''], [''C'']]" by code_simp
  note t = rename_effects [where b = "ex_body ''B''" and ident = "''model_1''" and d = ex_presets
      and i = 0 and ?t1.0 = 5 and ?b2.0 = "ex_body ''A''" and ?t2.0 = 6 and ident' = "''category_1''"
      and i' = 0 and oldTag = "''A''" and newTag = "''B''" and m = ?m]
  from t n fm have 1: "files (snd (put_model ex_presets ''model_1'' (ex_body ''B'') 5 True))
      = files ex_presets" by blast
  from t n fm bm bn have 2: "p_name (preset_models
      (snd (put_model (snd (put_model ex_presets ''model_1'' (ex_body ''B'') 5 True))
             ''model_1'' (ex_body ''A'') 6 True)) ! 0) = p_name (preset_models ex_presets ! 0)"
    by blast
  from t n fc have 3: "files (snd (put_category ex_presets ''category_1'' (ex_body ''B'') 5 True))
      = files ex_presets" by blast
  from t n fc bc bn have 4: "p_name (categories
      (snd (put_category (snd (put_category ex_presets ''category_1'' (ex_body ''B'') 5 True))
             ''category_1'' (ex_body ''A'') 6 True)) ! 0) = p_name (categories ex_presets ! 0)"
    by blast
  from t ne used have 5: "fst (editTag ?m ''A'' ''B'' 5 True) = True" by blast
  from t ne used fresh have 6: "map h_tags (html_files (db_data
         (snd (editTag (snd (editTag ?m ''A'' ''B'' 5 True)) ''B'' ''A'' 6 True))))
       = map h_tags (html_files (db_data ?m))" by blast
  from fresh have fresh': "list_all (\<lambda>file. ''B'' \<notin> set (h_tags file)) (html_files (db_data ?m))"
    by (simp add: list_all_iff)
  show ?thesis
    by (intro conjI) (rule n fm fc bm bn bc used fresh' v 1 2 3 4 5 6)+
qed

text \<open>
  The claim as stated fails on two files tagged \<^verbatim>\<open>A\<close> and \<^verbatim>\<open>B\<close>: renaming \<^verbatim>\<open>A\<close> to
  \<^verbatim>\<open>B\<close> succeeds and rewrites the first file, and renaming \<^verbatim>\<open>B\<close> back to \<^verbatim>\<open>A\<close> then
  rewrites both, so the second file ends with the tag \<^verbatim>\<open>A\<close> that it never had.
\<close>

theorem editTag_rewrites_files_counterexample:
  "fst (editTag (ex_db_with [ex_html ''h1'' [''A''], ex_html ''h2'' [''B'']]) ''A'' ''B'' 5 True) = True
   \<and> map h_tags (html_files (db_data (ex_db_with [ex_html ''h1'' [''A''], ex_html ''h2'' [''B'']])))
       = [[''A''], [''B'']]
   \<and> map h_tags (html_files (db_data (snd
         (editTag (ex_db_with [ex_html ''h1'' [''A''], ex_html ''h2'' [''B'']]) ''A'' ''B'' 5 True))))
       = [[''B''], [''B'']]
   \<and> fst (editTag (snd (editTag (ex_db_with [ex_html ''h1'' [''A''], ex_html ''h2'' [''B'']])
                           ''A'' ''B'' 5 True)) ''B'' ''A'' 6 True) = True
   \<and> map h_tags (html_files (db_data (snd
         (editTag (snd (editTag (ex_db_with [ex_html ''h1'' [''A''], ex_html ''h2'' [''B'']])
                           ''A'' ''B'' 5 True)) ''B'' ''A'' 6 True))))
       = [[''A''], [''A'']]"
  by code_simp

subsection \<open>C2\<close>

text \<open>
  C2 at a failing input. The document holds the tag \<^verbatim>\<open>tag_1\<close> and one active file that
  carries it. \<^verbatim>\<open>DataManager.deleteTag\<close> answers with success and the deleted tag, the tag
  collection is empty afterwards, and the file still carries the id.
\<close>

theorem deleteTag_unguarded_example:
  "fst (deleteTag \<lparr>dm_data = default_data\<lparr>files := [ex_file ''f1'' ''a'' [] [''tag_1'']],
                                           preset_tags := [ex_preset ''tag_1'' ''UI'']\<rparr>,
                   dm_storage = None\<rparr> ''tag_1'' 50 True)
     = Inr (ex_preset ''tag_1'' ''UI'')
   \<and> preset_tags (dm_data (snd (deleteTag
         \<lparr>dm_data = default_data\<lparr>files := [ex_file ''f1'' ''a'' [] [''tag_1'']],
                                   preset_tags := [ex_preset ''tag_1'' ''UI'']\<rparr>,
           dm_storage = None\<rparr> ''tag_1'' 50 True)))
     = []
   \<and> files (dm_data (snd (deleteTag
         \<lparr>dm_data = default_data\<lparr>files := [ex_file ''f1'' ''a'' [] [''tag_1'']],
                                   preset_tags := [ex_preset ''tag_1'' ''UI'']\<rparr>,
           dm_storage = None\<rparr> ''tag_1'' 50 True)))
     = [ex_file ''f1'' ''a'' [] [''tag_1'']]"
  by code_simp

subsection \<open>C3\<close>

text \<open>
  C3 at a failing input. A tag is created at clock \<open>42\<close> and a file carrying its id
  \<^verbatim>\<open>tag_42\<close> is uploaded at clock \<open>43\<close>; both handlers run \<^verbatim>\<open>updateStats\<close> and save.
  Afterwards one active file refers to the tag and the tag's \<open>usageCount\<close> is still the
  \<open>0\<close> it was created with.
\<close>

theorem usageCount_not_recounted_example:
  "map p_id
     (preset_tags (snd (post_upload (snd (post_tags default_data (ex_body ''UI'') 42 True))
                          (Some (ex_upload ''a.html'' [''tag_42''])) ''f1'' 43 True)))
     = [''tag_42'']
   \<and> map p_usageCount
     (preset_tags (snd (post_upload (snd (post_tags default_data (ex_body ''UI'') 42 True))
                          (Some (ex_upload ''a.html'' [''tag_42''])) ''f1'' 43 True)))
     = [0]
   \<and> length (filter (\<lambda>f. f_status f \<noteq> ''deleted'' \<and> ''tag_42'' \<in> set (f_tags f))
        (files (snd (post_upload (snd (post_tags default_data (ex_body ''UI'') 42 True))
                          (Some (ex_upload ''a.html'' [''tag_42''])) ''f1'' 43 True))))
     = 1"
  by code_simp

subsection \<open>C4\<close>

text \<open>
  C4 at a failing input. The only file has the title \<^verbatim>\<open>abc\<close>, so its searchable text is
  \<^verbatim>\<open>abc\<close> followed by the five joining blanks and holds no full stop; the wildcard match
  of the specification, in which the full stop of the keyword \<^verbatim>\<open>a.c\<close> stands for itself,
  does not match it. The search for \<^verbatim>\<open>a.c\<close> returns the file all the same: the full stop
  reaches the regular expression unescaped and matches the \<^verbatim>\<open>b\<close>.
\<close>

theorem search_dot_not_escaped_example:
  "getFiles (default_data\<lparr>files := [ex_file ''f1'' ''abc'' [] []]\<rparr>) (ex_search ''a.c'')
     = Some [ex_file ''f1'' ''abc'' [] []]
   \<and> searchText (ex_file ''f1'' ''abc'' [] []) = ''abc     ''
   \<and> wildcard_source ''a.c'' = ''a.c''
   \<and> spec_search (spec_pattern ''a.c'') (searchText (ex_file ''f1'' ''abc'' [] [])) = False"
  by code_simp

subsection \<open>C5\<close>

text \<open>
  C5, as the code has it. The test of a keyword is a search for a matching substring, not
  a match of the whole text: the pattern \<^verbatim>\<open>fo?\<close> matches the searchable texts
  \<^verbatim>\<open>foo\<close> and \<^verbatim>\<open>for\<close> and also \<^verbatim>\<open>fooo\<close> (at its first three characters), and does
  not match \<^verbatim>\<open>fo\<close>; the pattern \<^verbatim>\<open>f*r\<close> matches \<^verbatim>\<open>for\<close>, \<^verbatim>\<open>falter\<close> and \<^verbatim>\<open>fr\<close>.
\<close>

theorem wildcard_examples:
  "keyword_test ''fo?'' ''foo'' = Some True
   \<and> keyword_test ''fo?'' ''for'' = Some True
   \<and> keyword_test ''fo?'' ''fo'' = Some False
   \<and> keyword_test ''fo?'' ''fooo'' = Some True
   \<and> keyword_test ''f*r'' ''for'' = Some True
   \<and> keyword_test ''f*r'' ''falter'' = Some True
   \<and> keyword_test ''f*r'' ''fr'' = Some True"
  by code_simp

text \<open>
  The claim as stated fails at \<^verbatim>\<open>fooo\<close>: the keyword \<^verbatim>\<open>fo?\<close> matches that text, and the
  file list returns a file whose only text is the title \<^verbatim>\<open>fooo\<close>. (A file whose only
  text is the title \<^verbatim>\<open>fo\<close> is returned too: its searchable text goes on with the
  joining blanks, and the \<^verbatim>\<open>?\<close> takes the first of them.)
\<close>

theorem wildcard_fooo_counterexample:
  "keyword_test ''fo?'' ''fooo'' = Some True
   \<and> getFiles (default_data\<lparr>files := [ex_file ''f1'' ''fooo'' [] []]\<rparr>) (ex_search ''fo?'')
       = Some [ex_file ''f1'' ''fooo'' [] []]
   \<and> getFiles (default_data\<lparr>files := [ex_file ''f2'' ''fo'' [] []]\<rparr>) (ex_search ''fo?'')
       = Some [ex_file ''f2'' ''fo'' [] []]"
  by code_simp

subsection \<open>C6\<close>

text \<open>
  C6, as the code has it. \<^verbatim>\<open>updateStats\<close> recomputes the counters from the whole
  document, and \<^verbatim>\<open>saveData\<close> of the DataManager runs it before every write:
  \<open>totalFiles\<close> is the number of files whose status is not \<^verbatim>\<open>deleted\<close>, \<open>totalTags\<close>
  and \<open>totalModels\<close> are the numbers of entries of the tag and model collections, and
  \<open>totalCategories\<close> is the number of distinct non-empty category values found on the
  files, not the number of entries of the category collection. The last part is stated
  for documents without deleted files.
\<close>

theorem updateStats_counts:
  "totalFiles (settings (updateStats d now))
     = length (filter (\<lambda>f. f_status f \<noteq> ''deleted'') (files d))
   \<and> totalTags (settings (updateStats d now)) = length (preset_tags d)
   \<and> totalModels (settings (updateStats d now)) = length (preset_models d)
   \<and> ((\<forall>f \<in> set (files d). f_status f \<noteq> ''deleted'') \<longrightarrow>
        totalCategories (settings (updateStats d now))
          = card {c. c \<noteq> [] \<and> (\<exists>f \<in> set (files d). f_category f = c)})
   \<and> getStats (snd (saveData m now store_ok)) = settings (updateStats (dm_data m) now)"
  by (simp add: updateStats_def length_category_set getStats_def saveData_def Let_def)

theorem updateStats_counts_witness:
  "list_all (\<lambda>f. f_status f \<noteq> ''deleted'')
     (files (default_data\<lparr>files := [ex_file ''f1'' ''a'' ''games'' [],
                                      ex_file ''f2'' ''b'' ''games'' []]\<rparr>))
   \<and> totalCategories (settings (updateStats
         (default_data\<lparr>files := [ex_file ''f1'' ''a'' ''games'' [],
                                  ex_file ''f2'' ''b'' ''games'' []]\<rparr>) 7)) = 1
   \<and> card {c. c \<noteq> [] \<and>
              (\<exists>f \<in> set (files (default_data\<lparr>files := [ex_file ''f1'' ''a'' ''games'' [],
                                                          ex_file ''f2'' ''b'' ''games'' []]\<rparr>)).
                  f_category f = c)} = 1"
proof -
  let ?d = "default_data\<lparr>files := [ex_file ''f1'' ''a'' ''games'' [],
                                   ex_file ''f2'' ''b'' ''games'' []]\<rparr>"
  have a: "\<forall>f \<in> set (files ?d). f_status f \<noteq> ''deleted''"
    by (simp add: default_data_def ex_file_def)
  have v: "totalCategories (settings (updateStats ?d 7)) = 1"
    by (simp add: updateStats_def category_set_def default_data_def ex_file_def)
  from updateStats_counts [of ?d 7] a
  have c: "totalCategories (settings (updateStats ?d 7))
             = card {c. c \<noteq> [] \<and> (\<exists>f \<in> set (files ?d). f_category f = c)}"
    by blast
  from a have a': "list_all (\<lambda>f. f_status f \<noteq> ''deleted'') (files ?d)"
    by (simp only: list_all_iff)
  from c v have c': "card {c. c \<noteq> [] \<and> (\<exists>f \<in> set (files ?d). f_category f = c)} = 1"
    by simp
  show ?thesis
    by (intro conjI) (rule a' v c')+
qed

text \<open>
  The claim as stated fails on a document with no category entry and one active file
  whose category is \<^verbatim>\<open>games\<close>: \<open>totalCategories\<close> is \<open>1\<close>, the collection has \<open>0\<close>
  entries.
\<close>

theorem updateStats_totalCategories_counterexample:
  "totalCategories (settings (updateStats
       (default_data\<lparr>files := [ex_file ''f1'' ''a'' ''games'' []]\<rparr>) 7)) = 1
   \<and> length (categories (updateStats
       (default_data\<lparr>files := [ex_file ''f1'' ''a'' ''games'' []]\<rparr>) 7)) = 0"
  by code_simp

subsection \<open>C7\<close>

text \<open>
  C7 at a failing input. The document holds a tag named \<^verbatim>\<open>UI\<close>, and a tag of that
  name is created again. \<^verbatim>\<open>POST /api/tags\<close> and \<^verbatim>\<open>DataManager.addTag\<close> both answer
  with success and a new tag \<^verbatim>\<open>tag_42\<close>, and the collection then holds two tags named
  \<^verbatim>\<open>UI\<close>. The sibling \<^verbatim>\<open>addTag\<close> of the preset manager refuses the same name and
  leaves its set as it is.
\<close>

theorem create_duplicate_name_example:
  "fst (post_tags (default_data\<lparr>preset_tags := [ex_preset ''tag_1'' ''UI'']\<rparr>)
          (ex_body ''UI'') 42 True)
     = Inr \<lparr>p_id = ''tag_42'', p_name = ''UI'', p_color = Some ''#3498db'', p_description = [],
             p_createTime = 42, p_usageCount = 0, p_updateTime = None\<rparr>
   \<and> map p_name (preset_tags (snd (post_tags
         (default_data\<lparr>preset_tags := [ex_preset ''tag_1'' ''UI'']\<rparr>) (ex_body ''UI'') 42 True)))
     = [''UI'', ''UI'']
   \<and> fst (addTag \<lparr>dm_data = default_data\<lparr>preset_tags := [ex_preset ''tag_1'' ''UI'']\<rparr>,
                   dm_storage = None\<rparr> (ex_body ''UI'') 42 True)
     = Inr \<lparr>p_id = ''tag_42'', p_name = ''UI'', p_color = Some ''#3498db'', p_description = [],
             p_createTime = 42, p_usageCount = 0, p_updateTime = None\<rparr>
   \<and> map p_name (preset_tags (dm_data (snd (addTag
         \<lparr>dm_data = default_data\<lparr>preset_tags := [ex_preset ''tag_1'' ''UI'']\<rparr>,
           dm_storage = None\<rparr> (ex_body ''UI'') 42 True))))
     = [''UI'', ''UI'']
   \<and> preset_manager_addTag [''UI''] ''UI'' = (False, [''UI''])"
  by code_simp

subsection \<open>C8\<close>

text \<open>
  C8. \<^verbatim>\<open>DELETE /api/files/:id\<close> with the delete password, for an id that the document
  holds, answers with success and sets the status of the file to \<^verbatim>\<open>deleted\<close>; the
  presets are not touched. Deleting again succeeds as well and changes nothing but the
  time stamp of the document, and deleting a file that is already deleted leaves the list
  of files as it is. When the file was active, the recount of \<open>totalFiles\<close> is one less
  than the number of files that were active (so one less than the stored counter, when
  that was up to date). With ids as keys (no two files share one), the unfiltered file
  list is the previous one without that file, and \<^verbatim>\<open>GET /api/files/:id\<close> answers
  \<open>NotFound\<close>.
\<close>

theorem soft_delete_file:
  assumes found: "findIndex (\<lambda>f. f_id f = ident) (files d) = Some i"
  shows "let d' = snd (delete_file d ident ''wind'' now True) in
           fst (delete_file d ident ''wind'' now True) = Inr ()
         \<and> files d' = (files d)[i := (files d ! i)\<lparr>f_status := ''deleted''\<rparr>]
         \<and> f_status (files d' ! i) = ''deleted''
         \<and> preset_tags d' = preset_tags d \<and> preset_models d' = preset_models d
         \<and> categories d' = categories d
         \<and> (f_status (files d ! i) = ''deleted'' \<longrightarrow> files d' = files d)
         \<and> delete_file d' ident ''wind'' now2 True = (Inr (), d'\<lparr>lastUpdate := Some now2\<rparr>)
         \<and> (f_status (files d ! i) \<noteq> ''deleted'' \<longrightarrow>
              totalFiles (settings d') + 1
                = length (filter (\<lambda>f. f_status f \<noteq> ''deleted'') (files d))
              \<and> (totalFiles (settings d) = length (filter (\<lambda>f. f_status f \<noteq> ''deleted'') (files d))
                   \<longrightarrow> totalFiles (settings d') + 1 = totalFiles (settings d)))
         \<and> (distinct (map f_id (files d)) \<longrightarrow>
              getFiles d' no_filters
                = map_option (filter (\<lambda>f. f_id f \<noteq> ident)) (getFiles d no_filters)
              \<and> get_file d' ident now3 ok3 = (Inl NotFound, d'))"
proof -
  let ?xs = "files d"
  let ?ys = "?xs[i := (?xs ! i)\<lparr>f_status := ''deleted''\<rparr>]"
  let ?d' = "updateStats (d\<lparr>files := ?ys\<rparr>) now"
  from findIndex_Some [OF found] have i: "i < length ?xs" and id: "f_id (?xs ! i) = ident"
    by auto
  have r: "delete_file d ident ''wind'' now True = (Inr (), ?d')"
    by (rule delete_file_found [OF found])
  have fs: "files ?d' = ?ys" by (simp add: updateStats_def)
  have st: "f_status (files ?d' ! i) = ''deleted''" using i by (simp add: updateStats_def)
  have frame: "preset_tags ?d' = preset_tags d" "preset_models ?d' = preset_models d"
    "categories ?d' = categories d"
    by (simp_all add: updateStats_def)
  have same: "f_status (?xs ! i) = ''deleted'' \<longrightarrow> files ?d' = ?xs"
    using i by (simp add: updateStats_def list_update_same_status)
  have again: "delete_file ?d' ident ''wind'' now2 True = (Inr (), ?d'\<lparr>lastUpdate := Some now2\<rparr>)"
  proof -
    have f2: "findIndex (\<lambda>f. f_id f = ident) (files ?d') = Some i"
      using findIndex_id_after_delete [OF found] by (simp add: updateStats_def)
    have "(files ?d')[i := (files ?d' ! i)\<lparr>f_status := ''deleted''\<rparr>] = files ?d'"
      using i st by (intro list_update_same_status) (simp_all add: updateStats_def)
    then have "updateStats (?d'\<lparr>files := (files ?d')[i := (files ?d' ! i)\<lparr>f_status := ''deleted''\<rparr>]\<rparr>) now2
               = ?d'\<lparr>lastUpdate := Some now2\<rparr>"
      by (simp add: updateStats_def)
    with delete_file_found [OF f2, of now2] show ?thesis by simp
  qed
  have count: "f_status (?xs ! i) \<noteq> ''deleted'' \<longrightarrow>
      totalFiles (settings ?d') + 1 = length (filter (\<lambda>f. f_status f \<noteq> ''deleted'') ?xs)
      \<and> (totalFiles (settings d) = length (filter (\<lambda>f. f_status f \<noteq> ''deleted'') ?xs)
           \<longrightarrow> totalFiles (settings ?d') + 1 = totalFiles (settings d))"
    using length_filter_active_after_delete [OF i] by (simp add: updateStats_def)
  have listing: "distinct (map f_id ?xs) \<longrightarrow>
      getFiles ?d' no_filters = map_option (filter (\<lambda>f. f_id f \<noteq> ident)) (getFiles d no_filters)
      \<and> get_file ?d' ident now3 ok3 = (Inl NotFound, ?d')"
  proof
    assume d: "distinct (map f_id ?xs)"
    have "getFiles ?d' no_filters
            = map_option (filter (\<lambda>f. f_id f \<noteq> ident)) (getFiles d no_filters)"
      using filter_active_after_delete [OF i d] id
      by (simp add: getFiles_no_filters updateStats_def)
    moreover have "get_file ?d' ident now3 ok3 = (Inl NotFound, ?d')"
      using get_file_after_delete [OF found d] by (simp add: get_file_def updateStats_def)
    ultimately show "getFiles ?d' no_filters
            = map_option (filter (\<lambda>f. f_id f \<noteq> ident)) (getFiles d no_filters)
      \<and> get_file ?d' ident now3 ok3 = (Inl NotFound, ?d')" by simp
  qed
  show ?thesis
    unfolding Let_def r fst_conv snd_conv
    by (intro conjI) (rule refl fs st frame same again count listing)+
qed

theorem soft_delete_file_witness:
  "findIndex (\<lambda>f. f_id f = ''f1'') (files ex_doc) = Some 0
   \<and> f_status (files ex_doc ! 0) \<noteq> ''deleted''
   \<and> distinct (map f_id (files ex_doc))
   \<and> totalFiles (settings ex_doc) = length (filter (\<lambda>f. f_status f \<noteq> ''deleted'') (files ex_doc))
   \<and> fst (delete_file ex_doc ''f1'' ''wind'' 5 True) = Inr ()
   \<and> f_status (files (snd (delete_file ex_doc ''f1'' ''wind'' 5 True)) ! 0) = ''deleted''
   \<and> totalFiles (settings (snd (delete_file ex_doc ''f1'' ''wind'' 5 True))) + 1
       = totalFiles (settings ex_doc)
   \<and> getFiles (snd (delete_file ex_doc ''f1'' ''wind'' 5 True)) no_filters
       = map_option (filter (\<lambda>f. f_id f \<noteq> ''f1'')) (getFiles ex_doc no_filters)
   \<and> get_file (snd (delete_file ex_doc ''f1'' ''wind'' 5 True)) ''f1'' 9 True
       = (Inl NotFound, snd (delete_file ex_doc ''f1'' ''wind'' 5 True))
   \<and> delete_file (snd (delete_file ex_doc ''f1'' ''wind'' 5 True)) ''f1'' ''wind'' 8 True
       = (Inr (), (snd (delete_file ex_doc ''f1'' ''wind'' 5 True))\<lparr>lastUpdate := Some 8\<rparr>)
   \<and> getFiles (snd (delete_file ex_doc ''f1'' ''wind'' 5 True)) no_filters
       = Some [ex_file ''f2'' ''b'' [] []]"
proof -
  have f: "findIndex (\<lambda>f. f_id f = ''f1'') (files ex_doc) = Some 0" by code_simp
  have a: "f_status (files ex_doc ! 0) \<noteq> ''deleted''" by code_simp
  have u: "distinct (map f_id (files ex_doc))" by code_simp
  have s: "totalFiles (settings ex_doc)
             = length (filter (\<lambda>f. f_status f \<noteq> ''deleted'') (files ex_doc))" by code_simp
  have v: "getFiles (snd (delete_file ex_doc ''f1'' ''wind'' 5 True)) no_filters
             = Some [ex_file ''f2'' ''b'' [] []]" by code_simp
  note t = soft_delete_file [OF f, of 5 8 9 True, unfolded Let_def]
  from t have 1: "fst (delete_file ex_doc ''f1'' ''wind'' 5 True) = Inr ()" by blast
  from t have 2: "f_status (files (snd (delete_file ex_doc ''f1'' ''wind'' 5 True)) ! 0) = ''deleted''"
    by blast
  from t a s have 3: "totalFiles (settings (snd (delete_file ex_doc ''f1'' ''wind'' 5 True))) + 1
       = totalFiles (settings ex_doc)" by blast
  from t u have 4: "getFiles (snd (delete_file ex_doc ''f1'' ''wind'' 5 True)) no_filters
       = map_option (filter (\<lambda>f. f_id f \<noteq> ''f1'')) (getFiles ex_doc no_filters)" by blast
  from t u have 5: "get_file (snd (delete_file ex_doc ''f1'' ''wind'' 5 True)) ''f1'' 9 True
       = (Inl NotFound, snd (delete_file ex_doc ''f1'' ''wind'' 5 True))" by blast
  from t have 6: "delete_file (snd (delete_file ex_doc ''f1'' ''wind'' 5 True)) ''f1'' ''wind'' 8 True
       = (Inr (), (snd (delete_file ex_doc ''f1'' ''wind'' 5 True))\<lparr>lastUpdate := Some 8\<rparr>)"
    by blast
  show ?thesis
    by (intro conjI) (rule f a u s v 1 2 3 4 5 6)+
qed

subsection \<open>C9\<close>

text \<open>
  C9 at a failing input. \<^verbatim>\<open>addHTMLFile\<close> runs on the empty default document and the
  write fails: the answer is \<^verbatim>\<open>false\<close> and nothing is on disk, but the list of files
  in memory, empty before, holds the new record and the statistics count it.
  \<^verbatim>\<open>DataManager.addTag\<close> with a failing \<^verbatim>\<open>setItem\<close> throws, and the tag is in memory
  though the stored document is the old one. \<^verbatim>\<open>GET /api/files/:id\<close> with a failing write
  answers with the file and the raised access count as if the write had worked, and the
  document on disk is unchanged.
\<close>

theorem failed_save_no_rollback_example:
  "fst (addHTMLFile ex_db (ex_input ''h1'' []) ''0a1b'' 5 False) = False
   \<and> html_files (db_data ex_db) = []
   \<and> map h_id (html_files (db_data (snd (addHTMLFile ex_db (ex_input ''h1'' []) ''0a1b'' 5 False))))
       = [''h1'']
   \<and> total_files (statistics (db_data (snd (addHTMLFile ex_db (ex_input ''h1'' []) ''0a1b'' 5 False))))
       = 1
   \<and> db_disk (snd (addHTMLFile ex_db (ex_input ''h1'' []) ''0a1b'' 5 False)) = None
   \<and> fst (addTag ex_manager (ex_body ''UI'') 5 False) = Inl SaveFailed
   \<and> preset_tags (dm_data ex_manager) = []
   \<and> map p_id (preset_tags (dm_data (snd (addTag ex_manager (ex_body ''UI'') 5 False))))
       = [''tag_5'']
   \<and> dm_storage (snd (addTag ex_manager (ex_body ''UI'') 5 False)) = Some ex_doc
   \<and> fst (get_file ex_doc ''f1'' 9 False)
       = Inr ((ex_file ''f1'' ''a'' [] [])\<lparr>f_lastAccess := Some 9, f_accessCount := 1\<rparr>)
   \<and> snd (get_file ex_doc ''f1'' 9 False) = ex_doc"
  by code_simp

subsection \<open>C10\<close>

text \<open>
  C10. The id given by the create handlers is the kind prefix \<^verbatim>\<open>tag_\<close>, \<^verbatim>\<open>model_\<close> or
  \<^verbatim>\<open>category_\<close> followed by the clock reading in milliseconds, whatever the document and
  the request body are. Two successful creations of one kind therefore get the same id
  exactly when their clock readings are the same millisecond.
\<close>

theorem create_id_is_prefix_and_clock:
  "(fst (post_tags d1 b1 t1 ok1) = Inr x1 \<longrightarrow> fst (post_tags d2 b2 t2 ok2) = Inr x2 \<longrightarrow>
      p_id x1 = ''tag_'' @ string_of_nat t1 \<and> (p_id x1 = p_id x2) = (t1 = t2))
   \<and> (fst (post_models d1 b1 t1 ok1) = Inr x1 \<longrightarrow> fst (post_models d2 b2 t2 ok2) = Inr x2 \<longrightarrow>
      p_id x1 = ''model_'' @ string_of_nat t1 \<and> (p_id x1 = p_id x2) = (t1 = t2))
   \<and> (fst (post_categories d1 b1 t1 ok1) = Inr x1 \<longrightarrow>
      fst (post_categories d2 b2 t2 ok2) = Inr x2 \<longrightarrow>
      p_id x1 = ''category_'' @ string_of_nat t1 \<and> (p_id x1 = p_id x2) = (t1 = t2))"
proof (intro conjI impI)
  assume "fst (post_tags d1 b1 t1 ok1) = Inr x1" "fst (post_tags d2 b2 t2 ok2) = Inr x2"
  then have "p_id x1 = ''tag_'' @ string_of_nat t1" "p_id x2 = ''tag_'' @ string_of_nat t2"
    by (auto simp: post_tags_def Let_def split: if_splits)
  then show "p_id x1 = ''tag_'' @ string_of_nat t1" "(p_id x1 = p_id x2) = (t1 = t2)"
    using string_of_nat_inj by auto
next
  assume "fst (post_models d1 b1 t1 ok1) = Inr x1" "fst (post_models d2 b2 t2 ok2) = Inr x2"
  then have "p_id x1 = ''model_'' @ string_of_nat t1" "p_id x2 = ''model_'' @ string_of_nat t2"
    by (auto simp: post_models_def Let_def split: if_splits)
  then show "p_id x1 = ''model_'' @ string_of_nat t1" "(p_id x1 = p_id x2) = (t1 = t2)"
    using string_of_nat_inj by auto
next
  assume "fst (post_categories d1 b1 t1 ok1) = Inr x1"
    "fst (post_categories d2 b2 t2 ok2) = Inr x2"
  then have "p_id x1 = ''category_'' @ string_of_nat t1"
    "p_id x2 = ''category_'' @ string_of_nat t2"
    by (auto simp: post_categories_def Let_def split: if_splits)
  then show "p_id x1 = ''category_'' @ string_of_nat t1" "(p_id x1 = p_id x2) = (t1 = t2)"
    using string_of_nat_inj by auto
qed

theorem create_id_is_prefix_and_clock_witness:
  "fst (post_tags default_data \<lparr>b_name = ''UI'', b_color = [], b_description = []\<rparr> 42 True)
     = Inr \<lparr>p_id = ''tag_42'', p_name = ''UI'', p_color = Some ''#3498db'',
              p_description = [], p_createTime = 42, p_usageCount = 0, p_updateTime = None\<rparr>
   \<and> fst (post_models default_data \<lparr>b_name = ''UI'', b_color = [], b_description = []\<rparr> 42 True)
     = Inr \<lparr>p_id = ''model_42'', p_name = ''UI'', p_color = None,
              p_description = [], p_createTime = 42, p_usageCount = 0, p_updateTime = None\<rparr>
   \<and> fst (post_categories default_data \<lparr>b_name = ''UI'', b_color = [], b_description = []\<rparr> 42 True)
     = Inr \<lparr>p_id = ''category_42'', p_name = ''UI'', p_color = None,
              p_description = [], p_createTime = 42, p_usageCount = 0, p_updateTime = None\<rparr>
   \<and> ''tag_42'' = ''tag_'' @ string_of_nat 42
   \<and> ''model_42'' = ''model_'' @ string_of_nat 42
   \<and> ''category_42'' = ''category_'' @ string_of_nat 42
   \<and> map p_id (preset_tags (snd (post_tags (snd (post_tags default_data (ex_body ''UI'') 42 True))
                                     (ex_body ''Other'') 42 True)))
       = [''tag_42'', ''tag_42'']"
proof -
  let ?b = "\<lparr>b_name = ''UI'', b_color = [], b_description = []\<rparr>"
  let ?t = "\<lparr>p_id = ''tag_42'', p_name = ''UI'', p_color = Some ''#3498db'',
              p_description = [], p_createTime = 42, p_usageCount = 0, p_updateTime = None\<rparr>"
  let ?m = "\<lparr>p_id = ''model_42'', p_name = ''UI'', p_color = None,
              p_description = [], p_createTime = 42, p_usageCount = 0, p_updateTime = None\<rparr>"
  let ?c = "\<lparr>p_id = ''category_42'', p_name = ''UI'', p_color = None,
              p_description = [], p_createTime = 42, p_usageCount = 0, p_updateTime = None\<rparr>"
  have s: "string_of_nat 42 = ''42''"
    by code_simp
  have t: "fst (post_tags default_data ?b 42 True) = Inr ?t"
    by (simp add: post_tags_def Let_def s)
  have m: "fst (post_models default_data ?b 42 True) = Inr ?m"
    by (simp add: post_models_def Let_def s)
  have c: "fst (post_categories default_data ?b 42 True) = Inr ?c"
    by (simp add: post_categories_def Let_def s)
  from create_id_is_prefix_and_clock [of default_data ?b 42 True ?t default_data ?b 42 True ?t] t
  have "p_id ?t = ''tag_'' @ string_of_nat 42" by blast
  moreover
  from create_id_is_prefix_and_clock [of default_data ?b 42 True ?m default_data ?b 42 True ?m] m
  have "p_id ?m = ''model_'' @ string_of_nat 42" by blast
  moreover
  from create_id_is_prefix_and_clock [of default_data ?b 42 True ?c default_data ?b 42 True ?c] c
  have "p_id ?c = ''category_'' @ string_of_nat 42" by blast
  moreover
  have "map p_id (preset_tags (snd (post_tags (snd (post_tags default_data (ex_body ''UI'') 42 True))
                                      (ex_body ''Other'') 42 True)))
          = [''tag_42'', ''tag_42'']"
    by code_simp
  ultimately show ?thesis using t m c by simp
qed

end
